theory Spec2Isabelle
  imports Main "HOL-Library.Word"
begin

unbundle bit_operations_syntax

section \<open>Machine integers\<close>

type_synonym u8 = "8 word"
type_synonym u16 = "16 word"
type_synonym u64 = "64 word"

section \<open>Nessy: data model (nessy.c, lines 7 to 74)\<close>

text \<open>
  The C structs become records.  A fixed-size byte array becomes a function from its
  index (a natural number) to a byte; every index the emulator core computes is masked or
  reduced before use, so all accesses stay inside the declared bounds.  Record
  fields keep the C names; the CPU registers, which are single letters in C, carry the prefix
  \<open>cpu_\<close>, the PPU field \<open>mask\<close> is \<open>mask_reg\<close>, and the fields of \<open>AddrResult\<close> carry
  the prefix \<open>ar_\<close>.
\<close>

definition NES_RAM_SIZE :: nat where "NES_RAM_SIZE = 0x800"
definition PRG_ROM_BANK_SIZE :: nat where "PRG_ROM_BANK_SIZE = 0x4000"
definition CHR_ROM_BANK_SIZE :: nat where "CHR_ROM_BANK_SIZE = 0x2000"

definition FLAG_CARRY :: u8 where "FLAG_CARRY = 0x01"
definition FLAG_ZERO :: u8 where "FLAG_ZERO = 0x02"
definition FLAG_INTERRUPT :: u8 where "FLAG_INTERRUPT = 0x04"
definition FLAG_DECIMAL :: u8 where "FLAG_DECIMAL = 0x08"
definition FLAG_BREAK :: u8 where "FLAG_BREAK = 0x10"
definition FLAG_UNUSED :: u8 where "FLAG_UNUSED = 0x20"
definition FLAG_OVERFLOW :: u8 where "FLAG_OVERFLOW = 0x40"
definition FLAG_NEGATIVE :: u8 where "FLAG_NEGATIVE = 0x80"

record Cartridge =
  prg_rom :: "nat \<Rightarrow> u8"
  chr_rom :: "nat \<Rightarrow> u8"
  prg_rom_size :: nat
  chr_rom_size :: nat

record PPU =
  ctrl :: u8
  mask_reg :: u8
  status :: u8
  oam_addr :: u8
  scroll_latch :: u8
  addr_latch :: u8
  vram_addr :: u16
  temp_addr :: u16
  fine_x :: u8
  read_buffer :: u8
  vram :: "nat \<Rightarrow> u8"
  palette :: "nat \<Rightarrow> u8"
  oam :: "nat \<Rightarrow> u8"
  framebuffer :: "nat \<Rightarrow> u8"
  scanline :: int
  cycle :: int
  nmi_triggered :: bool

record CPU =
  cpu_a :: u8
  cpu_x :: u8
  cpu_y :: u8
  cpu_sp :: u8
  cpu_p :: u8
  cpu_pc :: u16
  cpu_cycles :: u64

record NES =
  cpu :: CPU
  ppu :: PPU
  cart :: Cartridge
  ram :: "nat \<Rightarrow> u8"

record AddrResult =
  ar_addr :: u16
  ar_value :: u8
  page_crossed :: bool

subsection \<open>Reset (lines 76 to 89)\<close>

definition ppu_reset :: PPU where
  "ppu_reset =
     \<lparr>ctrl = 0, mask_reg = 0, status = 0xA0, oam_addr = 0, scroll_latch = 0, addr_latch = 0,
      vram_addr = 0, temp_addr = 0, fine_x = 0, read_buffer = 0,
      vram = (\<lambda>_. 0), palette = (\<lambda>_. 0), oam = (\<lambda>_. 0), framebuffer = (\<lambda>_. 0),
      scanline = 0, cycle = 0, nmi_triggered = False\<rparr>"

definition cpu_reset :: "u16 \<Rightarrow> CPU" where
  "cpu_reset reset_vector =
     \<lparr>cpu_a = 0, cpu_x = 0, cpu_y = 0, cpu_sp = 0xFD,
      cpu_p = FLAG_INTERRUPT OR FLAG_UNUSED, cpu_pc = reset_vector, cpu_cycles = 7\<rparr>"

section \<open>Nessy: PPU bus and registers (lines 94 to 211)\<close>

definition ppu_mirror_vram_addr :: "u16 \<Rightarrow> u16" where
  "ppu_mirror_vram_addr addr =
     (let a = addr AND 0x2FFF
      in if a \<ge> 0x3000 \<and> a \<le> 0x3EFF then a - 0x1000 else a)"

text \<open>
  \<open>ppu_read\<close> does not change the machine.  The CHR index \<open>addr % chr_rom_size\<close> is only
  computed when \<open>chr_rom_size\<close> is not zero.
\<close>

definition ppu_read :: "NES \<Rightarrow> u16 \<Rightarrow> u8" where
  "ppu_read nes addr0 =
     (let addr = addr0 AND 0x3FFF
      in if addr < 0x2000 then
           (if chr_rom_size (cart nes) = 0 then 0
            else chr_rom (cart nes) (unat addr mod chr_rom_size (cart nes)))
         else if addr < 0x3F00 then
           vram (ppu nes) (unat (ppu_mirror_vram_addr addr AND 0x7FF))
         else
           palette (ppu nes) (unat ((0x3F00 OR (addr AND 0x1F)) AND 0x1F)))"

definition ppu_write :: "NES \<Rightarrow> u16 \<Rightarrow> u8 \<Rightarrow> NES" where
  "ppu_write nes addr0 v =
     (let addr = addr0 AND 0x3FFF
      in if addr < 0x2000 then
           (if chr_rom_size (cart nes) = 0 then nes
            else nes\<lparr>cart := (cart nes)\<lparr>chr_rom :=
                   (chr_rom (cart nes))(unat addr mod chr_rom_size (cart nes) := v)\<rparr>\<rparr>)
         else if addr < 0x3F00 then
           nes\<lparr>ppu := (ppu nes)\<lparr>vram :=
                 (vram (ppu nes))(unat (ppu_mirror_vram_addr addr AND 0x7FF) := v)\<rparr>\<rparr>
         else
           nes\<lparr>ppu := (ppu nes)\<lparr>palette :=
                 (palette (ppu nes))(unat ((0x3F00 OR (addr AND 0x1F)) AND 0x1F) := v)\<rparr>\<rparr>)"

text \<open>
  A register read returns the byte and the machine after the read's side effects.
  Register 2 clears status bit 7 and sets \<open>addr_latch\<close> to 0; it does not touch
  \<open>scroll_latch\<close>.
\<close>

definition ppu_read_register :: "NES \<Rightarrow> u16 \<Rightarrow> u8 \<times> NES" where
  "ppu_read_register nes addr =
     (let p = ppu nes; r = addr AND 0x7
      in if r = 2 then
           (status p, nes\<lparr>ppu := p\<lparr>status := status p AND NOT 0x80, addr_latch := 0\<rparr>\<rparr>)
         else if r = 4 then
           (oam p (unat (oam_addr p)), nes)
         else if r = 7 then
           (let va = vram_addr p;
                v = ppu_read nes va;
                inc = (if ctrl p AND 0x04 \<noteq> 0 then 32 else 1)
            in if va < 0x3F00 then
                 (read_buffer p, nes\<lparr>ppu := p\<lparr>read_buffer := v, vram_addr := va + inc\<rparr>\<rparr>)
               else
                 (v, nes\<lparr>ppu := p\<lparr>read_buffer := ppu_read nes (va - 0x1000),
                                   vram_addr := va + inc\<rparr>\<rparr>))
         else (0, nes))"

text \<open>
  In the C expressions the byte \<open>value\<close> is promoted to \<open>int\<close> before it is shifted, so
  the shifts are taken on the 16-bit extension \<open>ucast value\<close>.
\<close>

definition ppu_write_register :: "NES \<Rightarrow> u16 \<Rightarrow> u8 \<Rightarrow> NES" where
  "ppu_write_register nes addr v =
     (let p = ppu nes; r = addr AND 0x7
      in if r = 0 then
           nes\<lparr>ppu := p\<lparr>ctrl := v,
                 temp_addr := (temp_addr p AND 0xF3FF) OR push_bit 10 (ucast (v AND 0x03))\<rparr>\<rparr>
         else if r = 1 then nes\<lparr>ppu := p\<lparr>mask_reg := v\<rparr>\<rparr>
         else if r = 3 then nes\<lparr>ppu := p\<lparr>oam_addr := v\<rparr>\<rparr>
         else if r = 4 then
           nes\<lparr>ppu := p\<lparr>oam := (oam p)(unat (oam_addr p) := v), oam_addr := oam_addr p + 1\<rparr>\<rparr>
         else if r = 5 then
           (if scroll_latch p = 0 then
              nes\<lparr>ppu := p\<lparr>fine_x := v AND 0x7,
                    temp_addr := (temp_addr p AND 0xFFE0) OR ucast (drop_bit 3 v),
                    scroll_latch := 1\<rparr>\<rparr>
            else
              (let t1 = (temp_addr p AND 0x8FFF) OR push_bit 12 (ucast (v AND 0x07));
                   t2 = (t1 AND 0xFC1F) OR push_bit 2 (ucast (v AND 0xF8))
               in nes\<lparr>ppu := p\<lparr>temp_addr := t2, scroll_latch := 0\<rparr>\<rparr>))
         else if r = 6 then
           (if addr_latch p = 0 then
              nes\<lparr>ppu := p\<lparr>temp_addr := (temp_addr p AND 0x00FF) OR push_bit 8 (ucast (v AND 0x3F)),
                    addr_latch := 1\<rparr>\<rparr>
            else
              (let t = (temp_addr p AND 0xFF00) OR ucast v
               in nes\<lparr>ppu := p\<lparr>temp_addr := t, vram_addr := t, addr_latch := 0\<rparr>\<rparr>))
         else if r = 7 then
           (let n1 = ppu_write nes (vram_addr p) v;
                p1 = ppu n1
            in n1\<lparr>ppu := p1\<lparr>vram_addr :=
                  vram_addr p1 + (if ctrl p1 AND 0x04 \<noteq> 0 then 32 else 1)\<rparr>\<rparr>)
         else nes)"

section \<open>Nessy: CPU bus and stack (lines 232 to 279)\<close>

definition cpu_push :: "NES \<Rightarrow> u8 \<Rightarrow> NES" where
  "cpu_push nes v =
     nes\<lparr>ram := (ram nes)(0x100 + unat (cpu_sp (cpu nes)) := v),
         cpu := (cpu nes)\<lparr>cpu_sp := cpu_sp (cpu nes) - 1\<rparr>\<rparr>"

definition cpu_pop :: "NES \<Rightarrow> u8 \<times> NES" where
  "cpu_pop nes =
     (let sp' = cpu_sp (cpu nes) + 1
      in (ram nes (0x100 + unat sp'), nes\<lparr>cpu := (cpu nes)\<lparr>cpu_sp := sp'\<rparr>\<rparr>))"

definition cpu_set_zn :: "CPU \<Rightarrow> u8 \<Rightarrow> CPU" where
  "cpu_set_zn c v =
     (let p1 = (if v = 0 then cpu_p c OR FLAG_ZERO else cpu_p c AND NOT FLAG_ZERO);
          p2 = (if v AND 0x80 \<noteq> 0 then p1 OR FLAG_NEGATIVE else p1 AND NOT FLAG_NEGATIVE)
      in c\<lparr>cpu_p := p2\<rparr>)"

text \<open>
  \<open>cpu_read\<close> returns the byte and the machine after the read, since a read of a PPU
  register changes the PPU.  The PRG index is \<open>(addr - 0x8000) % prg_size\<close>; the C
  remainder is undefined for \<open>prg_size = 0\<close>, which no loaded cartridge has
  (see \<open>parse_ines\<close>), so statements about reads carry \<open>prg_rom_size \<noteq> 0\<close> where the
  address is not fixed.
\<close>

definition cpu_read :: "NES \<Rightarrow> u16 \<Rightarrow> u8 \<times> NES" where
  "cpu_read nes addr =
     (if addr < 0x2000 then (ram nes (unat (addr AND 0x7FF)), nes)
      else if addr < 0x4000 then ppu_read_register nes addr
      else if addr \<ge> 0x8000 then
        (let prg_size = prg_rom_size (cart nes)
         in if prg_size = PRG_ROM_BANK_SIZE
            then (prg_rom (cart nes) ((unat addr - 0x8000) mod PRG_ROM_BANK_SIZE), nes)
            else (prg_rom (cart nes) ((unat addr - 0x8000) mod prg_size), nes))
      else (0, nes))"

definition cpu_write :: "NES \<Rightarrow> u16 \<Rightarrow> u8 \<Rightarrow> NES" where
  "cpu_write nes addr v =
     (if addr < 0x2000 then nes\<lparr>ram := (ram nes)(unat (addr AND 0x7FF) := v)\<rparr>
      else if addr < 0x4000 then ppu_write_register nes addr v
      else nes)"

section \<open>Nessy: addressing modes (lines 292 to 371)\<close>

text \<open>
  \<open>fetch\<close> is the expression \<open>cpu_read(nes, nes->cpu.pc++)\<close>: the program counter is
  advanced and the byte at its old value is read.
\<close>

definition fetch :: "NES \<Rightarrow> u8 \<times> NES" where
  "fetch nes =
     (let pc0 = cpu_pc (cpu nes)
      in cpu_read (nes\<lparr>cpu := (cpu nes)\<lparr>cpu_pc := pc0 + 1\<rparr>\<rparr>) pc0)"

definition addr_immediate :: "NES \<Rightarrow> AddrResult \<times> NES" where
  "addr_immediate nes =
     (let pc0 = cpu_pc (cpu nes)
      in (\<lparr>ar_addr = pc0, ar_value = 0, page_crossed = False\<rparr>,
          nes\<lparr>cpu := (cpu nes)\<lparr>cpu_pc := pc0 + 1\<rparr>\<rparr>))"

definition addr_zero_page :: "NES \<Rightarrow> AddrResult \<times> NES" where
  "addr_zero_page nes =
     (let (b, n1) = fetch nes
      in (\<lparr>ar_addr = ucast b, ar_value = 0, page_crossed = False\<rparr>, n1))"

definition addr_zero_page_x :: "NES \<Rightarrow> AddrResult \<times> NES" where
  "addr_zero_page_x nes =
     (let (base, n1) = fetch nes;
          a = base + cpu_x (cpu n1)
      in (\<lparr>ar_addr = ucast a, ar_value = 0, page_crossed = False\<rparr>, n1))"

definition addr_zero_page_y :: "NES \<Rightarrow> AddrResult \<times> NES" where
  "addr_zero_page_y nes =
     (let (base, n1) = fetch nes;
          a = base + cpu_y (cpu n1)
      in (\<lparr>ar_addr = ucast a, ar_value = 0, page_crossed = False\<rparr>, n1))"

definition addr_absolute :: "NES \<Rightarrow> AddrResult \<times> NES" where
  "addr_absolute nes =
     (let (lo, n1) = fetch nes;
          (hi, n2) = fetch n1
      in (\<lparr>ar_addr = push_bit 8 (ucast hi) OR ucast lo, ar_value = 0, page_crossed = False\<rparr>,
          n2))"

definition addr_absolute_x :: "NES \<Rightarrow> AddrResult \<times> NES" where
  "addr_absolute_x nes =
     (let (lo, n1) = fetch nes;
          (hi, n2) = fetch n1;
          base = push_bit 8 (ucast hi) OR ucast lo;
          a = base + ucast (cpu_x (cpu n2))
      in (\<lparr>ar_addr = a, ar_value = 0,
           page_crossed = ((a AND 0xFF00) \<noteq> (base AND 0xFF00))\<rparr>, n2))"

definition addr_absolute_y :: "NES \<Rightarrow> AddrResult \<times> NES" where
  "addr_absolute_y nes =
     (let (lo, n1) = fetch nes;
          (hi, n2) = fetch n1;
          base = push_bit 8 (ucast hi) OR ucast lo;
          a = base + ucast (cpu_y (cpu n2))
      in (\<lparr>ar_addr = a, ar_value = 0,
           page_crossed = ((a AND 0xFF00) \<noteq> (base AND 0xFF00))\<rparr>, n2))"

text \<open>
  The operands of the C operator \<open>|\<close> are evaluated here from left to right: the low byte
  is read first.  C leaves the order open; it matters only when both reads have side
  effects on the PPU.
\<close>

definition addr_indirect :: "NES \<Rightarrow> AddrResult \<times> NES" where
  "addr_indirect nes =
     (let (lo, n1) = fetch nes;
          (hi, n2) = fetch n1;
          ptr = push_bit 8 (ucast hi) OR ucast lo;
          (tlo, n3) = cpu_read n2 ptr;
          (thi, n4) = cpu_read n3 ((ptr AND 0xFF00) OR ((ptr + 1) AND 0xFF))
      in (\<lparr>ar_addr = ucast tlo OR push_bit 8 (ucast thi), ar_value = 0,
           page_crossed = False\<rparr>, n4))"

definition addr_indexed_indirect :: "NES \<Rightarrow> AddrResult \<times> NES" where
  "addr_indexed_indirect nes =
     (let (base, n1) = fetch nes;
          ptr = base + cpu_x (cpu n1);
          (tlo, n2) = cpu_read n1 (ucast ptr);
          (thi, n3) = cpu_read n2 (ucast (ptr + 1))
      in (\<lparr>ar_addr = ucast tlo OR push_bit 8 (ucast thi), ar_value = 0,
           page_crossed = False\<rparr>, n3))"

definition addr_indirect_indexed :: "NES \<Rightarrow> AddrResult \<times> NES" where
  "addr_indirect_indexed nes =
     (let (base, n1) = fetch nes;
          (tlo, n2) = cpu_read n1 (ucast base);
          (thi, n3) = cpu_read n2 (ucast (base + 1));
          a = ucast tlo OR push_bit 8 (ucast thi);
          final_addr = a + ucast (cpu_y (cpu n3))
      in (\<lparr>ar_addr = final_addr, ar_value = 0,
           page_crossed = ((final_addr AND 0xFF00) \<noteq> (a AND 0xFF00))\<rparr>, n3))"

section \<open>Nessy: arithmetic helpers (lines 373 to 415)\<close>

definition add_cycles :: "nat \<Rightarrow> NES \<Rightarrow> NES" where
  "add_cycles n nes = nes\<lparr>cpu := (cpu nes)\<lparr>cpu_cycles := cpu_cycles (cpu nes) + of_nat n\<rparr>\<rparr>"

text \<open>
  The branch offset is the operand byte read as \<open>int8_t\<close>; \<open>scast\<close> extends its sign to
  16 bits before the addition, which wraps as the cast to \<open>uint16_t\<close> does.
\<close>

definition cpu_branch :: "NES \<Rightarrow> bool \<Rightarrow> NES" where
  "cpu_branch nes condition =
     (let (offset, n1) = fetch nes
      in if condition then
           (let prev_pc = cpu_pc (cpu n1);
                new_pc = prev_pc + scast offset;
                n2 = add_cycles 1 (n1\<lparr>cpu := (cpu n1)\<lparr>cpu_pc := new_pc\<rparr>\<rparr>)
            in if (prev_pc AND 0xFF00) \<noteq> (new_pc AND 0xFF00) then add_cycles 1 n2 else n2)
         else n1)"

definition cpu_adc :: "CPU \<Rightarrow> u8 \<Rightarrow> CPU" where
  "cpu_adc c v =
     (let sum = (ucast (cpu_a c) :: u16) + ucast v
                  + (if cpu_p c AND FLAG_CARRY \<noteq> 0 then 1 else 0);
          p1 = (if sum > 0xFF then cpu_p c OR FLAG_CARRY else cpu_p c AND NOT FLAG_CARRY);
          result = (ucast sum :: u8);
          p2 = (if NOT (cpu_a c XOR v) AND (cpu_a c XOR result) AND 0x80 \<noteq> 0
                then p1 OR FLAG_OVERFLOW else p1 AND NOT FLAG_OVERFLOW)
      in cpu_set_zn (c\<lparr>cpu_p := p2, cpu_a := result\<rparr>) result)"

definition cpu_sbc :: "CPU \<Rightarrow> u8 \<Rightarrow> CPU" where
  "cpu_sbc c v = cpu_adc c (NOT v)"

definition cpu_compare :: "CPU \<Rightarrow> u8 \<Rightarrow> u8 \<Rightarrow> CPU" where
  "cpu_compare c reg v =
     (let diff = (ucast reg :: u16) - ucast v;
          p1 = (if reg \<ge> v then cpu_p c OR FLAG_CARRY else cpu_p c AND NOT FLAG_CARRY)
      in cpu_set_zn (c\<lparr>cpu_p := p1\<rparr>) (ucast diff))"

section \<open>Nessy: the instruction bodies of \<open>cpu_step\<close> (lines 417 to 1432)\<close>

text \<open>
  The switch of \<open>cpu_step\<close> has 151 cases and a default.  Cases with the same body up to
  the addressing mode, the cycle count and the page-crossing penalty share one definition
  here, which takes those as arguments; \<open>exec\<close> below lists every opcode with the
  arguments of its case, in the order of the switch.
\<close>

definition exec_brk :: "NES \<Rightarrow> NES" where
  "exec_brk nes =
     (let n0 = nes\<lparr>cpu := (cpu nes)\<lparr>cpu_pc := cpu_pc (cpu nes) + 1\<rparr>\<rparr>;
          n1 = cpu_push n0 (ucast (drop_bit 8 (cpu_pc (cpu n0))));
          n2 = cpu_push n1 (ucast (cpu_pc (cpu n1) AND 0xFF));
          n3 = cpu_push n2 (cpu_p (cpu n2) OR FLAG_BREAK OR FLAG_UNUSED);
          n4 = n3\<lparr>cpu := (cpu n3)\<lparr>cpu_p := cpu_p (cpu n3) OR FLAG_INTERRUPT\<rparr>\<rparr>;
          (lo, n5) = cpu_read n4 0xFFFE;
          (hi, n6) = cpu_read n5 0xFFFF
      in add_cycles 7 (n6\<lparr>cpu := (cpu n6)\<lparr>cpu_pc := ucast lo OR push_bit 8 (ucast hi)\<rparr>\<rparr>))"

text \<open>The cycle count of a case: \<open>base + (addr.page_crossed ? 1 : 0)\<close> where the case has
  the penalty, \<open>base\<close> otherwise.\<close>

definition cycles_of :: "nat \<Rightarrow> bool \<Rightarrow> AddrResult \<Rightarrow> nat" where
  "cycles_of base penalty ar = base + (if penalty \<and> page_crossed ar then 1 else 0)"

text \<open>ORA, AND, EOR: \<open>cpu->a OP= cpu_read(nes, addr.addr); cpu_set_zn(cpu, cpu->a)\<close>.\<close>

definition exec_logic ::
  "(u8 \<Rightarrow> u8 \<Rightarrow> u8) \<Rightarrow> (NES \<Rightarrow> AddrResult \<times> NES) \<Rightarrow> nat \<Rightarrow> bool \<Rightarrow> NES \<Rightarrow> NES" where
  "exec_logic f mode base penalty nes =
     (let (ar, n1) = mode nes;
          (v, n2) = cpu_read n1 (ar_addr ar);
          a' = f (cpu_a (cpu n2)) v
      in add_cycles (cycles_of base penalty ar)
           (n2\<lparr>cpu := cpu_set_zn ((cpu n2)\<lparr>cpu_a := a'\<rparr>) a'\<rparr>))"

definition exec_ora :: "(NES \<Rightarrow> AddrResult \<times> NES) \<Rightarrow> nat \<Rightarrow> bool \<Rightarrow> NES \<Rightarrow> NES" where
  "exec_ora = exec_logic (\<lambda>a v. a OR v)"

definition exec_and :: "(NES \<Rightarrow> AddrResult \<times> NES) \<Rightarrow> nat \<Rightarrow> bool \<Rightarrow> NES \<Rightarrow> NES" where
  "exec_and = exec_logic (\<lambda>a v. a AND v)"

definition exec_eor :: "(NES \<Rightarrow> AddrResult \<times> NES) \<Rightarrow> nat \<Rightarrow> bool \<Rightarrow> NES \<Rightarrow> NES" where
  "exec_eor = exec_logic (\<lambda>a v. a XOR v)"

definition exec_adc :: "(NES \<Rightarrow> AddrResult \<times> NES) \<Rightarrow> nat \<Rightarrow> bool \<Rightarrow> NES \<Rightarrow> NES" where
  "exec_adc mode base penalty nes =
     (let (ar, n1) = mode nes;
          (v, n2) = cpu_read n1 (ar_addr ar)
      in add_cycles (cycles_of base penalty ar) (n2\<lparr>cpu := cpu_adc (cpu n2) v\<rparr>))"

definition exec_sbc :: "(NES \<Rightarrow> AddrResult \<times> NES) \<Rightarrow> nat \<Rightarrow> bool \<Rightarrow> NES \<Rightarrow> NES" where
  "exec_sbc mode base penalty nes =
     (let (ar, n1) = mode nes;
          (v, n2) = cpu_read n1 (ar_addr ar)
      in add_cycles (cycles_of base penalty ar) (n2\<lparr>cpu := cpu_sbc (cpu n2) v\<rparr>))"

definition exec_compare ::
  "(CPU \<Rightarrow> u8) \<Rightarrow> (NES \<Rightarrow> AddrResult \<times> NES) \<Rightarrow> nat \<Rightarrow> bool \<Rightarrow> NES \<Rightarrow> NES" where
  "exec_compare reg mode base penalty nes =
     (let (ar, n1) = mode nes;
          (v, n2) = cpu_read n1 (ar_addr ar)
      in add_cycles (cycles_of base penalty ar)
           (n2\<lparr>cpu := cpu_compare (cpu n2) (reg (cpu n2)) v\<rparr>))"

text \<open>LDA, LDX, LDY: \<open>cpu->r = cpu_read(nes, addr.addr); cpu_set_zn(cpu, cpu->r)\<close>.\<close>

definition exec_lda :: "(NES \<Rightarrow> AddrResult \<times> NES) \<Rightarrow> nat \<Rightarrow> bool \<Rightarrow> NES \<Rightarrow> NES" where
  "exec_lda mode base penalty nes =
     (let (ar, n1) = mode nes;
          (v, n2) = cpu_read n1 (ar_addr ar)
      in add_cycles (cycles_of base penalty ar)
           (n2\<lparr>cpu := cpu_set_zn ((cpu n2)\<lparr>cpu_a := v\<rparr>) v\<rparr>))"

definition exec_ldx :: "(NES \<Rightarrow> AddrResult \<times> NES) \<Rightarrow> nat \<Rightarrow> bool \<Rightarrow> NES \<Rightarrow> NES" where
  "exec_ldx mode base penalty nes =
     (let (ar, n1) = mode nes;
          (v, n2) = cpu_read n1 (ar_addr ar)
      in add_cycles (cycles_of base penalty ar)
           (n2\<lparr>cpu := cpu_set_zn ((cpu n2)\<lparr>cpu_x := v\<rparr>) v\<rparr>))"

definition exec_ldy :: "(NES \<Rightarrow> AddrResult \<times> NES) \<Rightarrow> nat \<Rightarrow> bool \<Rightarrow> NES \<Rightarrow> NES" where
  "exec_ldy mode base penalty nes =
     (let (ar, n1) = mode nes;
          (v, n2) = cpu_read n1 (ar_addr ar)
      in add_cycles (cycles_of base penalty ar)
           (n2\<lparr>cpu := cpu_set_zn ((cpu n2)\<lparr>cpu_y := v\<rparr>) v\<rparr>))"

text \<open>STA, STX, STY: \<open>cpu_write(nes, addr.addr, cpu->r)\<close>.\<close>

definition exec_store ::
  "(CPU \<Rightarrow> u8) \<Rightarrow> (NES \<Rightarrow> AddrResult \<times> NES) \<Rightarrow> nat \<Rightarrow> NES \<Rightarrow> NES" where
  "exec_store reg mode base nes =
     (let (ar, n1) = mode nes
      in add_cycles base (cpu_write n1 (ar_addr ar) (reg (cpu n1))))"

text \<open>
  The shifts, rotates, increments and decrements map the status byte and the operand to
  the new status byte (before \<open>cpu_set_zn\<close>) and the new operand.
\<close>

definition asl_op :: "u8 \<Rightarrow> u8 \<Rightarrow> u8 \<times> u8" where
  "asl_op p v = ((p AND NOT FLAG_CARRY) OR (drop_bit 7 v AND FLAG_CARRY), push_bit 1 v)"

definition rol_op :: "u8 \<Rightarrow> u8 \<Rightarrow> u8 \<times> u8" where
  "rol_op p v =
     (let carry = (if p AND FLAG_CARRY \<noteq> 0 then 1 else 0)
      in ((p AND NOT FLAG_CARRY) OR (drop_bit 7 v AND FLAG_CARRY), push_bit 1 v OR carry))"

definition lsr_op :: "u8 \<Rightarrow> u8 \<Rightarrow> u8 \<times> u8" where
  "lsr_op p v = ((p AND NOT FLAG_CARRY) OR (v AND 1), drop_bit 1 v)"

definition ror_op :: "u8 \<Rightarrow> u8 \<Rightarrow> u8 \<times> u8" where
  "ror_op p v =
     (let carry = (if p AND FLAG_CARRY \<noteq> 0 then 0x80 else 0)
      in ((p AND NOT FLAG_CARRY) OR (v AND 1), drop_bit 1 v OR carry))"

definition dec_op :: "u8 \<Rightarrow> u8 \<Rightarrow> u8 \<times> u8" where
  "dec_op p v = (p, v - 1)"

definition inc_op :: "u8 \<Rightarrow> u8 \<Rightarrow> u8 \<times> u8" where
  "inc_op p v = (p, v + 1)"

text \<open>Read-modify-write on memory: read, update the status byte, write back, then
  \<open>cpu_set_zn\<close> on the written value.\<close>

definition exec_rmw ::
  "(u8 \<Rightarrow> u8 \<Rightarrow> u8 \<times> u8) \<Rightarrow> (NES \<Rightarrow> AddrResult \<times> NES) \<Rightarrow> nat \<Rightarrow> NES \<Rightarrow> NES" where
  "exec_rmw f mode base nes =
     (let (ar, n1) = mode nes;
          (v, n2) = cpu_read n1 (ar_addr ar);
          (p', v') = f (cpu_p (cpu n2)) v;
          n3 = cpu_write (n2\<lparr>cpu := (cpu n2)\<lparr>cpu_p := p'\<rparr>\<rparr>) (ar_addr ar) v'
      in add_cycles base (n3\<lparr>cpu := cpu_set_zn (cpu n3) v'\<rparr>))"

text \<open>The accumulator forms (ASL A, ROL A, LSR A, ROR A).\<close>

definition exec_acc :: "(u8 \<Rightarrow> u8 \<Rightarrow> u8 \<times> u8) \<Rightarrow> nat \<Rightarrow> NES \<Rightarrow> NES" where
  "exec_acc f base nes =
     (let (p', a') = f (cpu_p (cpu nes)) (cpu_a (cpu nes))
      in add_cycles base (nes\<lparr>cpu := cpu_set_zn ((cpu nes)\<lparr>cpu_p := p', cpu_a := a'\<rparr>) a'\<rparr>))"

definition exec_bit :: "(NES \<Rightarrow> AddrResult \<times> NES) \<Rightarrow> nat \<Rightarrow> NES \<Rightarrow> NES" where
  "exec_bit mode base nes =
     (let (ar, n1) = mode nes;
          (v, n2) = cpu_read n1 (ar_addr ar);
          c = cpu n2;
          p1 = (cpu_p c AND NOT (FLAG_ZERO OR FLAG_NEGATIVE OR FLAG_OVERFLOW))
                 OR (v AND FLAG_NEGATIVE)
                 OR (if v AND 0x40 \<noteq> 0 then FLAG_OVERFLOW else 0);
          p2 = (if cpu_a c AND v = 0 then p1 OR FLAG_ZERO else p1)
      in add_cycles base (n2\<lparr>cpu := c\<lparr>cpu_p := p2\<rparr>\<rparr>))"

text \<open>
  Branches: \<open>cpu_branch(nes, cpu->p & FLAG)\<close> when \<open>want\<close> is true and
  \<open>cpu_branch(nes, !(cpu->p & FLAG))\<close> when it is false, then two cycles.
\<close>

definition exec_branch :: "u8 \<Rightarrow> bool \<Rightarrow> NES \<Rightarrow> NES" where
  "exec_branch flag want nes =
     add_cycles 2 (cpu_branch nes ((cpu_p (cpu nes) AND flag \<noteq> 0) = want))"

definition exec_clear_flag :: "u8 \<Rightarrow> nat \<Rightarrow> NES \<Rightarrow> NES" where
  "exec_clear_flag flag base nes =
     add_cycles base (nes\<lparr>cpu := (cpu nes)\<lparr>cpu_p := cpu_p (cpu nes) AND NOT flag\<rparr>\<rparr>)"

definition exec_set_flag :: "u8 \<Rightarrow> nat \<Rightarrow> NES \<Rightarrow> NES" where
  "exec_set_flag flag base nes =
     add_cycles base (nes\<lparr>cpu := (cpu nes)\<lparr>cpu_p := cpu_p (cpu nes) OR flag\<rparr>\<rparr>)"

text \<open>Register transfers with flags (TAX, TAY, TXA, TYA, TSX) and TXS without.\<close>

definition exec_transfer ::
  "((u8 \<Rightarrow> u8) \<Rightarrow> CPU \<Rightarrow> CPU) \<Rightarrow> (CPU \<Rightarrow> u8) \<Rightarrow> nat \<Rightarrow> NES \<Rightarrow> NES" where
  "exec_transfer dst_update src base nes =
     (let v = src (cpu nes)
      in add_cycles base (nes\<lparr>cpu := cpu_set_zn (dst_update (\<lambda>_. v) (cpu nes)) v\<rparr>))"

definition exec_txs :: "NES \<Rightarrow> NES" where
  "exec_txs nes = add_cycles 2 (nes\<lparr>cpu := (cpu nes)\<lparr>cpu_sp := cpu_x (cpu nes)\<rparr>\<rparr>)"

text \<open>INX, INY, DEX, DEY: the register plus \<open>delta\<close> (1 or -1), wrapping at 8 bits.\<close>

definition exec_incdec ::
  "((u8 \<Rightarrow> u8) \<Rightarrow> CPU \<Rightarrow> CPU) \<Rightarrow> (CPU \<Rightarrow> u8) \<Rightarrow> u8 \<Rightarrow> nat \<Rightarrow> NES \<Rightarrow> NES" where
  "exec_incdec reg_update reg delta base nes =
     (let v = reg (cpu nes) + delta
      in add_cycles base (nes\<lparr>cpu := cpu_set_zn (reg_update (\<lambda>_. v) (cpu nes)) v\<rparr>))"

subsection \<open>Stack and control flow\<close>

definition exec_php :: "NES \<Rightarrow> NES" where
  "exec_php nes =
     add_cycles 3 (cpu_push nes (cpu_p (cpu nes) OR FLAG_BREAK OR FLAG_UNUSED))"

definition exec_plp :: "NES \<Rightarrow> NES" where
  "exec_plp nes =
     (let (v, n1) = cpu_pop nes
      in add_cycles 4 (n1\<lparr>cpu := (cpu n1)\<lparr>cpu_p := v OR FLAG_UNUSED\<rparr>\<rparr>))"

definition exec_pha :: "NES \<Rightarrow> NES" where
  "exec_pha nes = add_cycles 3 (cpu_push nes (cpu_a (cpu nes)))"

definition exec_pla :: "NES \<Rightarrow> NES" where
  "exec_pla nes =
     (let (v, n1) = cpu_pop nes
      in add_cycles 4 (n1\<lparr>cpu := cpu_set_zn ((cpu n1)\<lparr>cpu_a := v\<rparr>) v\<rparr>))"

text \<open>RTI (case 0x40) stores the popped byte in \<open>cpu->p\<close> as it is.\<close>

definition exec_rti :: "NES \<Rightarrow> NES" where
  "exec_rti nes =
     (let (v, n1) = cpu_pop nes;
          n2 = n1\<lparr>cpu := (cpu n1)\<lparr>cpu_p := v\<rparr>\<rparr>;
          (lo, n3) = cpu_pop n2;
          n4 = n3\<lparr>cpu := (cpu n3)\<lparr>cpu_pc := ucast lo\<rparr>\<rparr>;
          (hi, n5) = cpu_pop n4
      in add_cycles 6
           (n5\<lparr>cpu := (cpu n5)\<lparr>cpu_pc := cpu_pc (cpu n5) OR push_bit 8 (ucast hi)\<rparr>\<rparr>))"

definition exec_rts :: "NES \<Rightarrow> NES" where
  "exec_rts nes =
     (let (lo, n1) = cpu_pop nes;
          n2 = n1\<lparr>cpu := (cpu n1)\<lparr>cpu_pc := ucast lo\<rparr>\<rparr>;
          (hi, n3) = cpu_pop n2;
          n4 = n3\<lparr>cpu := (cpu n3)\<lparr>cpu_pc := cpu_pc (cpu n3) OR push_bit 8 (ucast hi)\<rparr>\<rparr>
      in add_cycles 6 (n4\<lparr>cpu := (cpu n4)\<lparr>cpu_pc := cpu_pc (cpu n4) + 1\<rparr>\<rparr>))"

text \<open>
  JSR pushes \<open>cpu->pc - 1\<close>, high byte first, after the operand has been fetched.  The
  subtraction wraps at 16 bits, which agrees with the C expression on \<open>int\<close> followed by
  the cast to \<open>uint8_t\<close>.
\<close>

definition exec_jsr :: "NES \<Rightarrow> NES" where
  "exec_jsr nes =
     (let (ar, n1) = addr_absolute nes;
          n2 = cpu_push n1 (ucast (drop_bit 8 (cpu_pc (cpu n1) - 1)));
          n3 = cpu_push n2 (ucast ((cpu_pc (cpu n2) - 1) AND 0xFF))
      in add_cycles 6 (n3\<lparr>cpu := (cpu n3)\<lparr>cpu_pc := ar_addr ar\<rparr>\<rparr>))"

definition exec_jmp :: "(NES \<Rightarrow> AddrResult \<times> NES) \<Rightarrow> nat \<Rightarrow> NES \<Rightarrow> NES" where
  "exec_jmp mode base nes =
     (let (ar, n1) = mode nes
      in add_cycles base (n1\<lparr>cpu := (cpu n1)\<lparr>cpu_pc := ar_addr ar\<rparr>\<rparr>))"

subsection \<open>The switch on the opcode\<close>

definition exec :: "u8 \<Rightarrow> NES \<Rightarrow> NES" where
  "exec opcode nes =
     (if opcode = 0x00 then exec_brk nes
      else if opcode = 0x01 then exec_ora addr_indexed_indirect 6 False nes
      else if opcode = 0x05 then exec_ora addr_zero_page 3 False nes
      else if opcode = 0x06 then exec_rmw asl_op addr_zero_page 5 nes
      else if opcode = 0x08 then exec_php nes
      else if opcode = 0x09 then exec_ora addr_immediate 2 False nes
      else if opcode = 0x0A then exec_acc asl_op 2 nes
      else if opcode = 0x0D then exec_ora addr_absolute 4 False nes
      else if opcode = 0x0E then exec_rmw asl_op addr_absolute 6 nes
      else if opcode = 0x10 then exec_branch FLAG_NEGATIVE False nes
      else if opcode = 0x11 then exec_ora addr_indirect_indexed 5 True nes
      else if opcode = 0x15 then exec_ora addr_zero_page_x 4 False nes
      else if opcode = 0x16 then exec_rmw asl_op addr_zero_page_x 6 nes
      else if opcode = 0x18 then exec_clear_flag FLAG_CARRY 2 nes
      else if opcode = 0x19 then exec_ora addr_absolute_y 4 True nes
      else if opcode = 0x1D then exec_ora addr_absolute_x 4 True nes
      else if opcode = 0x1E then exec_rmw asl_op addr_absolute_x 7 nes
      else if opcode = 0x20 then exec_jsr nes
      else if opcode = 0x21 then exec_and addr_indexed_indirect 6 False nes
      else if opcode = 0x24 then exec_bit addr_zero_page 3 nes
      else if opcode = 0x25 then exec_and addr_zero_page 3 False nes
      else if opcode = 0x26 then exec_rmw rol_op addr_zero_page 5 nes
      else if opcode = 0x28 then exec_plp nes
      else if opcode = 0x29 then exec_and addr_immediate 2 False nes
      else if opcode = 0x2A then exec_acc rol_op 2 nes
      else if opcode = 0x2C then exec_bit addr_absolute 4 nes
      else if opcode = 0x2D then exec_and addr_absolute 4 False nes
      else if opcode = 0x2E then exec_rmw rol_op addr_absolute 6 nes
      else if opcode = 0x30 then exec_branch FLAG_NEGATIVE True nes
      else if opcode = 0x31 then exec_and addr_indirect_indexed 5 True nes
      else if opcode = 0x35 then exec_and addr_zero_page_x 4 False nes
      else if opcode = 0x36 then exec_rmw rol_op addr_zero_page_x 6 nes
      else if opcode = 0x38 then exec_set_flag FLAG_CARRY 2 nes
      else if opcode = 0x39 then exec_and addr_absolute_y 4 True nes
      else if opcode = 0x3D then exec_and addr_absolute_x 4 True nes
      else if opcode = 0x3E then exec_rmw rol_op addr_absolute_x 7 nes
      else if opcode = 0x40 then exec_rti nes
      else if opcode = 0x41 then exec_eor addr_indexed_indirect 6 False nes
      else if opcode = 0x45 then exec_eor addr_zero_page 3 False nes
      else if opcode = 0x46 then exec_rmw lsr_op addr_zero_page 5 nes
      else if opcode = 0x48 then exec_pha nes
      else if opcode = 0x49 then exec_eor addr_immediate 2 False nes
      else if opcode = 0x4A then exec_acc lsr_op 2 nes
      else if opcode = 0x4C then exec_jmp addr_absolute 3 nes
      else if opcode = 0x4D then exec_eor addr_absolute 4 False nes
      else if opcode = 0x4E then exec_rmw lsr_op addr_absolute 6 nes
      else if opcode = 0x50 then exec_branch FLAG_OVERFLOW False nes
      else if opcode = 0x51 then exec_eor addr_indirect_indexed 5 True nes
      else if opcode = 0x55 then exec_eor addr_zero_page_x 4 False nes
      else if opcode = 0x56 then exec_rmw lsr_op addr_zero_page_x 6 nes
      else if opcode = 0x58 then exec_clear_flag FLAG_INTERRUPT 2 nes
      else if opcode = 0x59 then exec_eor addr_absolute_y 4 True nes
      else if opcode = 0x5D then exec_eor addr_absolute_x 4 True nes
      else if opcode = 0x5E then exec_rmw lsr_op addr_absolute_x 7 nes
      else if opcode = 0x60 then exec_rts nes
      else if opcode = 0x61 then exec_adc addr_indexed_indirect 6 False nes
      else if opcode = 0x65 then exec_adc addr_zero_page 3 False nes
      else if opcode = 0x66 then exec_rmw ror_op addr_zero_page 5 nes
      else if opcode = 0x68 then exec_pla nes
      else if opcode = 0x69 then exec_adc addr_immediate 2 False nes
      else if opcode = 0x6A then exec_acc ror_op 2 nes
      else if opcode = 0x6C then exec_jmp addr_indirect 5 nes
      else if opcode = 0x6D then exec_adc addr_absolute 4 False nes
      else if opcode = 0x6E then exec_rmw ror_op addr_absolute 6 nes
      else if opcode = 0x70 then exec_branch FLAG_OVERFLOW True nes
      else if opcode = 0x71 then exec_adc addr_indirect_indexed 5 True nes
      else if opcode = 0x75 then exec_adc addr_zero_page_x 4 False nes
      else if opcode = 0x76 then exec_rmw ror_op addr_zero_page_x 6 nes
      else if opcode = 0x78 then exec_set_flag FLAG_INTERRUPT 2 nes
      else if opcode = 0x79 then exec_adc addr_absolute_y 4 True nes
      else if opcode = 0x7D then exec_adc addr_absolute_x 4 True nes
      else if opcode = 0x7E then exec_rmw ror_op addr_absolute_x 7 nes
      else if opcode = 0x81 then exec_store cpu_a addr_indexed_indirect 6 nes
      else if opcode = 0x84 then exec_store cpu_y addr_zero_page 3 nes
      else if opcode = 0x85 then exec_store cpu_a addr_zero_page 3 nes
      else if opcode = 0x86 then exec_store cpu_x addr_zero_page 3 nes
      else if opcode = 0x88 then exec_incdec cpu_y_update cpu_y (- 1) 2 nes
      else if opcode = 0x8A then exec_transfer cpu_a_update cpu_x 2 nes
      else if opcode = 0x8C then exec_store cpu_y addr_absolute 4 nes
      else if opcode = 0x8D then exec_store cpu_a addr_absolute 4 nes
      else if opcode = 0x8E then exec_store cpu_x addr_absolute 4 nes
      else if opcode = 0x90 then exec_branch FLAG_CARRY False nes
      else if opcode = 0x91 then exec_store cpu_a addr_indirect_indexed 6 nes
      else if opcode = 0x94 then exec_store cpu_y addr_zero_page_x 4 nes
      else if opcode = 0x95 then exec_store cpu_a addr_zero_page_x 4 nes
      else if opcode = 0x96 then exec_store cpu_x addr_zero_page_y 4 nes
      else if opcode = 0x98 then exec_transfer cpu_a_update cpu_y 2 nes
      else if opcode = 0x99 then exec_store cpu_a addr_absolute_y 5 nes
      else if opcode = 0x9A then exec_txs nes
      else if opcode = 0x9D then exec_store cpu_a addr_absolute_x 5 nes
      else if opcode = 0xA0 then exec_ldy addr_immediate 2 False nes
      else if opcode = 0xA1 then exec_lda addr_indexed_indirect 6 False nes
      else if opcode = 0xA2 then exec_ldx addr_immediate 2 False nes
      else if opcode = 0xA4 then exec_ldy addr_zero_page 3 False nes
      else if opcode = 0xA5 then exec_lda addr_zero_page 3 False nes
      else if opcode = 0xA6 then exec_ldx addr_zero_page 3 False nes
      else if opcode = 0xA8 then exec_transfer cpu_y_update cpu_a 2 nes
      else if opcode = 0xA9 then exec_lda addr_immediate 2 False nes
      else if opcode = 0xAA then exec_transfer cpu_x_update cpu_a 2 nes
      else if opcode = 0xAC then exec_ldy addr_absolute 4 False nes
      else if opcode = 0xAD then exec_lda addr_absolute 4 False nes
      else if opcode = 0xAE then exec_ldx addr_absolute 4 False nes
      else if opcode = 0xB0 then exec_branch FLAG_CARRY True nes
      else if opcode = 0xB1 then exec_lda addr_indirect_indexed 5 True nes
      else if opcode = 0xB4 then exec_ldy addr_zero_page_x 4 False nes
      else if opcode = 0xB5 then exec_lda addr_zero_page_x 4 False nes
      else if opcode = 0xB6 then exec_ldx addr_zero_page_y 4 False nes
      else if opcode = 0xB8 then exec_clear_flag FLAG_OVERFLOW 2 nes
      else if opcode = 0xB9 then exec_lda addr_absolute_y 4 True nes
      else if opcode = 0xBA then exec_transfer cpu_x_update cpu_sp 2 nes
      else if opcode = 0xBC then exec_ldy addr_absolute_x 4 True nes
      else if opcode = 0xBD then exec_lda addr_absolute_x 4 True nes
      else if opcode = 0xBE then exec_ldx addr_absolute_y 4 True nes
      else if opcode = 0xC0 then exec_compare cpu_y addr_immediate 2 False nes
      else if opcode = 0xC1 then exec_compare cpu_a addr_indexed_indirect 6 False nes
      else if opcode = 0xC4 then exec_compare cpu_y addr_zero_page 3 False nes
      else if opcode = 0xC5 then exec_compare cpu_a addr_zero_page 3 False nes
      else if opcode = 0xC6 then exec_rmw dec_op addr_zero_page 5 nes
      else if opcode = 0xC8 then exec_incdec cpu_y_update cpu_y (1) 2 nes
      else if opcode = 0xC9 then exec_compare cpu_a addr_immediate 2 False nes
      else if opcode = 0xCA then exec_incdec cpu_x_update cpu_x (- 1) 2 nes
      else if opcode = 0xCC then exec_compare cpu_y addr_absolute 4 False nes
      else if opcode = 0xCD then exec_compare cpu_a addr_absolute 4 False nes
      else if opcode = 0xCE then exec_rmw dec_op addr_absolute 6 nes
      else if opcode = 0xD0 then exec_branch FLAG_ZERO False nes
      else if opcode = 0xD1 then exec_compare cpu_a addr_indirect_indexed 5 True nes
      else if opcode = 0xD5 then exec_compare cpu_a addr_zero_page_x 4 False nes
      else if opcode = 0xD6 then exec_rmw dec_op addr_zero_page_x 6 nes
      else if opcode = 0xD8 then exec_clear_flag FLAG_DECIMAL 2 nes
      else if opcode = 0xD9 then exec_compare cpu_a addr_absolute_y 4 True nes
      else if opcode = 0xDD then exec_compare cpu_a addr_absolute_x 4 True nes
      else if opcode = 0xDE then exec_rmw dec_op addr_absolute_x 7 nes
      else if opcode = 0xE0 then exec_compare cpu_x addr_immediate 2 False nes
      else if opcode = 0xE1 then exec_sbc addr_indexed_indirect 6 False nes
      else if opcode = 0xE4 then exec_compare cpu_x addr_zero_page 3 False nes
      else if opcode = 0xE5 then exec_sbc addr_zero_page 3 False nes
      else if opcode = 0xE6 then exec_rmw inc_op addr_zero_page 5 nes
      else if opcode = 0xE8 then exec_incdec cpu_x_update cpu_x (1) 2 nes
      else if opcode = 0xE9 then exec_sbc addr_immediate 2 False nes
      else if opcode = 0xEA then add_cycles 2 nes
      else if opcode = 0xEC then exec_compare cpu_x addr_absolute 4 False nes
      else if opcode = 0xED then exec_sbc addr_absolute 4 False nes
      else if opcode = 0xEE then exec_rmw inc_op addr_absolute 6 nes
      else if opcode = 0xF0 then exec_branch FLAG_ZERO True nes
      else if opcode = 0xF1 then exec_sbc addr_indirect_indexed 5 True nes
      else if opcode = 0xF5 then exec_sbc addr_zero_page_x 4 False nes
      else if opcode = 0xF6 then exec_rmw inc_op addr_zero_page_x 6 nes
      else if opcode = 0xF8 then exec_set_flag FLAG_DECIMAL 2 nes
      else if opcode = 0xF9 then exec_sbc addr_absolute_y 4 True nes
      else if opcode = 0xFD then exec_sbc addr_absolute_x 4 True nes
      else if opcode = 0xFE then exec_rmw inc_op addr_absolute_x 7 nes
      else add_cycles 2 nes)"

definition cpu_step :: "NES \<Rightarrow> NES" where
  "cpu_step nes = (let (opcode, n1) = fetch nes in exec opcode n1)"

section \<open>Nessy: the iNES loader (lines 1458 to 1492)\<close>

text \<open>
  The ROM image \<open>rom\<close> is the list of its bytes; \<open>rom_size\<close> is its length.  \<open>parse_ines\<close>
  returns \<open>false\<close> (\<open>Rejected\<close>) or fills the cartridge and returns \<open>true\<close> (\<open>Loaded\<close>).
  The two \<open>memcpy\<close> calls copy \<open>prg_size\<close> bytes into \<open>prg_rom\<close>, an array of
  \<open>2 * PRG_ROM_BANK_SIZE\<close> bytes, and \<open>chr_size\<close> bytes into \<open>chr_rom\<close>, an array of
  \<open>CHR_ROM_BANK_SIZE\<close> bytes; the function compares neither size with the capacity.  A
  copy that is longer than its destination writes past the array, which C leaves
  undefined: the model stops there with \<open>Overrun n cap\<close> (\<open>n\<close> bytes copied into
  \<open>cap\<close>).  The only header bytes read are 0 to 6.
\<close>

datatype parse_result = Rejected | Loaded Cartridge | Overrun nat nat

definition ines_magic :: "u8 list" where
  "ines_magic = [0x4E, 0x45, 0x53, 0x1A]"

definition parse_ines :: "u8 list \<Rightarrow> parse_result" where
  "parse_ines rom =
     (if length rom < 16 then Rejected
      else if take 4 rom \<noteq> ines_magic then Rejected
      else
        (let prg_banks = rom ! 4;
             chr_banks = rom ! 5;
             flags6 = rom ! 6;
             mapper = drop_bit 4 flags6
         in if mapper \<noteq> 0 then Rejected
            else
              (let offset = 16 + (if flags6 AND 0x04 \<noteq> 0 then 512 else 0);
                   prg_size = unat prg_banks * PRG_ROM_BANK_SIZE;
                   chr_size = unat chr_banks * CHR_ROM_BANK_SIZE
               in if length rom < offset + prg_size + chr_size then Rejected
                  else if prg_size > 2 * PRG_ROM_BANK_SIZE
                    then Overrun prg_size (2 * PRG_ROM_BANK_SIZE)
                  else if chr_size > CHR_ROM_BANK_SIZE
                    then Overrun chr_size CHR_ROM_BANK_SIZE
                  else Loaded
                    \<lparr>prg_rom = (\<lambda>i. if i < prg_size then rom ! (offset + i) else 0),
                     chr_rom = (\<lambda>i. if i < chr_size then rom ! (offset + prg_size + i) else 0),
                     prg_rom_size = (if prg_size \<noteq> 0 then prg_size else PRG_ROM_BANK_SIZE),
                     chr_rom_size = chr_size\<rparr>)))"

section \<open>DuoVM (duovm.c)\<close>

text \<open>
  The globals of \<open>duovm.c\<close> form the record \<open>vm\<close>.  The registers, single letters in C,
  carry the prefix \<open>reg_\<close>.  \<open>memory\<close> is indexed by a 16-bit address, the type of every
  address parameter in the source.  The calls to the terminal library are recorded in
  \<open>display\<close>, in order.  The two fatal exits of the memory accessors are the values of
  \<open>vm_error\<close>.
\<close>

definition MEM_SIZE :: nat where "MEM_SIZE = 65536"
definition SRAM_START :: nat where "SRAM_START = 224 * 256"
definition SCREEN_W :: nat where "SCREEN_W = 36"
definition SCREEN_H :: nat where "SCREEN_H = 24"

datatype vm_error = Memory_OOB u16 | Write_to_ROM u16

datatype display_call = Mvaddch nat nat u8 | Refresh

datatype button = LEFT | UP | DOWN | RIGHT

record vm =
  memory :: "u16 \<Rightarrow> u8"
  reg_PC :: u16
  reg_A :: u16
  reg_T :: u16
  reg_D0 :: u8
  reg_D1 :: u8
  reg_C :: bool
  running :: bool
  waiting_key :: bool
  cur_x :: u8
  cur_y :: u8
  display :: "display_call list"

definition bind_err :: "'e + 'a \<Rightarrow> ('a \<Rightarrow> 'e + 'b) \<Rightarrow> 'e + 'b" where
  "bind_err r f = (case r of Inl e \<Rightarrow> Inl e | Inr v \<Rightarrow> f v)"

subsection \<open>Memory (lines 35 to 60)\<close>

text \<open>\<open>check_addr\<close> returns the fatal error, if any.  Its parameter is a \<open>uint16_t\<close>.\<close>

definition check_addr :: "u16 \<Rightarrow> vm_error option" where
  "check_addr addr = (if unat addr \<ge> MEM_SIZE then Some (Memory_OOB addr) else None)"

definition mem_read :: "vm \<Rightarrow> u16 \<Rightarrow> vm_error + u8" where
  "mem_read s addr =
     (case check_addr addr of Some e \<Rightarrow> Inl e | None \<Rightarrow> Inr (memory s addr))"

definition mem_write :: "u16 \<Rightarrow> u8 \<Rightarrow> vm \<Rightarrow> vm_error + vm" where
  "mem_write addr v s =
     (case check_addr addr of
        Some e \<Rightarrow> Inl e
      | None \<Rightarrow>
          if unat addr < SRAM_START then Inl (Write_to_ROM addr)
          else Inr (s\<lparr>memory := (memory s)(addr := v)\<rparr>))"

text \<open>
  In \<open>mem_read(addr + 1)\<close> the sum is computed on \<open>int\<close> and converted to the
  \<open>uint16_t\<close> parameter: \<open>of_nat (unat addr + 1)\<close>.
\<close>

definition mem_read16 :: "vm \<Rightarrow> u16 \<Rightarrow> vm_error + u16" where
  "mem_read16 s addr =
     bind_err (mem_read s addr) (\<lambda>lo.
     bind_err (mem_read s (of_nat (unat addr + 1))) (\<lambda>hi.
     Inr (ucast lo OR push_bit 8 (ucast hi))))"

subsection \<open>Display and input (lines 64 to 101)\<close>

definition clear_screen_vm :: "vm \<Rightarrow> vm" where
  "clear_screen_vm s =
     s\<lparr>display := display s
          @ concat (map (\<lambda>y. map (\<lambda>x. Mvaddch y x 0x20) [0..<SCREEN_W]) [0..<SCREEN_H])
          @ [Refresh]\<rparr>"

definition put_char_vm :: "u8 \<Rightarrow> vm \<Rightarrow> vm" where
  "put_char_vm ch s =
     (let s1 = s\<lparr>display := display s
                  @ [Mvaddch (unat (cur_y s)) (unat (cur_x s)) (if ch \<noteq> 0 then ch else 0x20)]\<rparr>;
          s2 = s1\<lparr>cur_x := cur_x s1 + 1\<rparr>;
          s3 = (if unat (cur_x s2) \<ge> SCREEN_W then
                  (let s4 = s2\<lparr>cur_x := 0, cur_y := cur_y s2 + 1\<rparr>
                   in if unat (cur_y s4) \<ge> SCREEN_H then s4\<lparr>cur_y := 0\<rparr> else s4)
                else s2)
      in s3\<lparr>display := display s3 @ [Refresh]\<rparr>)"

text \<open>
  \<open>read_button\<close> waits for a key and returns 0 to 3.  The button it returns is an
  argument of \<open>step\<close>; waiting is outside the model.
\<close>

definition button_code :: "button \<Rightarrow> u8" where
  "button_code b = (case b of LEFT \<Rightarrow> 0 | UP \<Rightarrow> 1 | DOWN \<Rightarrow> 2 | RIGHT \<Rightarrow> 3)"

subsection \<open>CPU (lines 105 to 190)\<close>

definition write_alu_dest :: "u8 \<Rightarrow> u8 \<Rightarrow> vm \<Rightarrow> vm_error + vm" where
  "write_alu_dest dest val s =
     (if dest = 0 then mem_write (reg_A s) val s else Inr (s\<lparr>reg_D0 := val\<rparr>))"

text \<open>
  \<open>step\<close> is a sequence of \<open>if\<close> statements, one after the other, each guarded by a test
  on the opcode.  \<open>when_op\<close> is one guarded statement and \<open>seq\<close> runs a list of them,
  stopping at a fatal exit.
\<close>

definition when_op :: "bool \<Rightarrow> (vm \<Rightarrow> vm_error + vm) \<Rightarrow> vm \<Rightarrow> vm_error + vm" where
  "when_op c f s = (if c then f s else Inr s)"

fun seq :: "(vm \<Rightarrow> vm_error + vm) list \<Rightarrow> vm \<Rightarrow> vm_error + vm" where
  "seq [] s = Inr s"
| "seq (f # fs) s = (case f s of Inl e \<Rightarrow> Inl e | Inr s' \<Rightarrow> seq fs s')"

definition carry_in :: "vm \<Rightarrow> nat" where
  "carry_in s = (if reg_C s then 1 else 0)"

definition step_body :: "button \<Rightarrow> u8 \<Rightarrow> (vm \<Rightarrow> vm_error + vm) list" where
  "step_body b opcode =
     (let alu = opcode AND 0xFE; dst = opcode AND 1
      in
      [when_op (opcode = 0x00) (\<lambda>s. bind_err (mem_read16 s (reg_PC s)) (\<lambda>w.
         Inr (s\<lparr>reg_A := w, reg_PC := reg_PC s + 2\<rparr>))),
       when_op (opcode = 0x01) (\<lambda>s. bind_err (mem_read s (reg_PC s)) (\<lambda>v.
         Inr (s\<lparr>reg_PC := reg_PC s + 1, reg_D0 := v\<rparr>))),
       when_op (opcode = 0x02) (\<lambda>s. bind_err (mem_read s (reg_PC s)) (\<lambda>v.
         Inr (s\<lparr>reg_PC := reg_PC s + 1, reg_D1 := v\<rparr>))),
       when_op (opcode = 0x03) (\<lambda>s. bind_err (mem_read s (reg_A s)) (\<lambda>v.
         Inr (s\<lparr>reg_D0 := v\<rparr>))),
       when_op (opcode = 0x04) (\<lambda>s. bind_err (mem_read s (reg_A s)) (\<lambda>v.
         Inr (s\<lparr>reg_D1 := v\<rparr>))),
       when_op (opcode = 0x05) (\<lambda>s. bind_err (mem_read s (reg_A s)) (\<lambda>v.
         Inr (s\<lparr>reg_T := (reg_T s AND 0xFF00) OR ucast v\<rparr>))),
       when_op (opcode = 0x06) (\<lambda>s. bind_err (mem_read s (reg_A s)) (\<lambda>v.
         Inr (s\<lparr>reg_T := (reg_T s AND 0x00FF) OR push_bit 8 (ucast v)\<rparr>))),
       when_op (opcode = 0x07) (\<lambda>s. Inr (s\<lparr>reg_A := reg_T s\<rparr>)),
       when_op (opcode = 0x08) (\<lambda>s. Inr (s\<lparr>reg_PC := reg_T s\<rparr>)),
       when_op (opcode = 0x20) (\<lambda>s. bind_err (mem_read16 s (reg_PC s)) (\<lambda>w.
         Inr (s\<lparr>reg_PC := w\<rparr>))),
       when_op (opcode = 0x21) (\<lambda>s. bind_err (mem_read16 s (reg_PC s)) (\<lambda>t.
         Inr (if reg_C s then s\<lparr>reg_PC := t\<rparr> else s\<lparr>reg_PC := reg_PC s + 2\<rparr>))),
       when_op (opcode = 0x22) (\<lambda>s. bind_err (mem_read16 s (reg_PC s)) (\<lambda>t.
         Inr (if \<not> reg_C s then s\<lparr>reg_PC := t\<rparr> else s\<lparr>reg_PC := reg_PC s + 2\<rparr>))),
       when_op (opcode = 0x40) (\<lambda>s. Inr (s\<lparr>reg_C := False\<rparr>)),
       when_op (opcode = 0x41) (\<lambda>s. Inr (s\<lparr>reg_C := True\<rparr>)),
       when_op (alu = 0x60) (\<lambda>s. write_alu_dest dst (reg_D0 s) s),
       when_op (alu = 0x62) (\<lambda>s.
         let r = (of_nat (unat (reg_D0 s) + unat (reg_D1 s) + carry_in s) :: u16)
         in write_alu_dest dst (ucast (r AND 0xFF)) (s\<lparr>reg_C := (r > 0xFF)\<rparr>)),
       when_op (alu = 0x64) (\<lambda>s.
         let r = uint (reg_D0 s) - uint (reg_D1 s) - int (carry_in s)
         in write_alu_dest dst (word_of_int r) (s\<lparr>reg_C := (r < 0)\<rparr>)),
       when_op (alu = 0x66) (\<lambda>s. write_alu_dest dst (reg_D0 s AND reg_D1 s) s),
       when_op (alu = 0x68) (\<lambda>s. write_alu_dest dst (reg_D0 s OR reg_D1 s) s),
       when_op (alu = 0x6A) (\<lambda>s. write_alu_dest dst (reg_D0 s XOR reg_D1 s) s),
       when_op (alu = 0x6C) (\<lambda>s. write_alu_dest dst (NOT (reg_D0 s)) s),
       when_op (alu = 0x6E) (\<lambda>s.
         let r = (push_bit 1 (ucast (reg_D0 s)) OR of_nat (carry_in s) :: u16)
         in write_alu_dest dst (ucast (r AND 0xFF)) (s\<lparr>reg_C := (r > 0xFF)\<rparr>)),
       when_op (alu = 0x70) (\<lambda>s.
         let nextC = (reg_D0 s AND 1 \<noteq> 0);
             r = drop_bit 1 (reg_D0 s) OR (if reg_C s then 0x80 else 0)
         in write_alu_dest dst r (s\<lparr>reg_C := nextC\<rparr>)),
       when_op (opcode = 0xA0) (\<lambda>s.
         bind_err (mem_write (reg_A s) (button_code b) (s\<lparr>waiting_key := True\<rparr>)) (\<lambda>s'.
         Inr (s'\<lparr>waiting_key := False\<rparr>))),
       when_op (opcode = 0xA1) (\<lambda>s. bind_err (mem_read s (reg_A s)) (\<lambda>v.
         Inr (put_char_vm v s))),
       when_op (opcode = 0xA2) (\<lambda>s. bind_err (mem_read s (reg_A s)) (\<lambda>v.
         Inr (s\<lparr>cur_x := v\<rparr>))),
       when_op (opcode = 0xA3) (\<lambda>s. bind_err (mem_read s (reg_A s)) (\<lambda>v.
         Inr (s\<lparr>cur_y := v\<rparr>))),
       when_op (opcode = 0xA4) (\<lambda>s. Inr (clear_screen_vm s))])"

text \<open>\<open>uint8_t opcode = mem_read(PC++)\<close>, then the guarded statements.\<close>

definition step :: "button \<Rightarrow> vm \<Rightarrow> vm_error + vm" where
  "step b s =
     bind_err (mem_read s (reg_PC s)) (\<lambda>opcode.
       seq (step_body b opcode) (s\<lparr>reg_PC := reg_PC s + 1\<rparr>))"

text \<open>
  The state when the driver loop starts: the globals as initialised, the memory as the
  loader left it, and the screen cleared by \<open>main\<close>.
\<close>

definition cold_start :: "(u16 \<Rightarrow> u8) \<Rightarrow> vm" where
  "cold_start mem =
     clear_screen_vm
       \<lparr>memory = mem, reg_PC = 0, reg_A = 0, reg_T = 0, reg_D0 = 0, reg_D1 = 0,
        reg_C = False, running = True, waiting_key = False, cur_x = 0, cur_y = 0,
        display = []\<rparr>"

text \<open>
  The driver loop executes \<open>step\<close> again and again.  \<open>run bs s\<close> executes one step for
  each element of \<open>bs\<close>, which is the button \<open>read_button\<close> returns in that step if the
  step reads one.
\<close>

fun run :: "button list \<Rightarrow> vm \<Rightarrow> vm_error + vm" where
  "run [] s = Inr s"
| "run (b # bs) s = (case step b s of Inl e \<Rightarrow> Inl e | Inr s' \<Rightarrow> run bs s')"

section \<open>Definitions used to state the properties\<close>

text \<open>
  A machine with an empty one-bank cartridge, the PPU and the CPU as \<open>main\<close> resets
  them, and given RAM contents and program counter.  The example executions below start
  from it.
\<close>

definition blank_cart :: Cartridge where
  "blank_cart = \<lparr>prg_rom = (\<lambda>_. 0), chr_rom = (\<lambda>_. 0),
                  prg_rom_size = PRG_ROM_BANK_SIZE, chr_rom_size = 0\<rparr>"

definition machine_with :: "(nat \<Rightarrow> u8) \<Rightarrow> u16 \<Rightarrow> NES" where
  "machine_with r pc0 = \<lparr>cpu = cpu_reset pc0, ppu = ppu_reset, cart = blank_cart, ram = r\<rparr>"

text \<open>The carry flag of the status byte as a number, and the 16-bit \<open>sum\<close> of \<open>cpu_adc\<close>.\<close>

definition carry_of :: "CPU \<Rightarrow> nat" where
  "carry_of c = (if cpu_p c AND FLAG_CARRY \<noteq> 0 then 1 else 0)"

definition adc_sum16 :: "CPU \<Rightarrow> u8 \<Rightarrow> u16" where
  "adc_sum16 c m = ucast (cpu_a c) + ucast m + (if cpu_p c AND FLAG_CARRY \<noteq> 0 then 1 else 0)"

text \<open>
  The machine after reset and one CPU write of 0x7D to \<open>$2005\<close> (a first scroll write),
  and the same machine after a CPU read of \<open>$2002\<close>.
\<close>

definition after_first_scroll_write :: NES where
  "after_first_scroll_write = cpu_write (machine_with (\<lambda>_. 0) 0) 0x2005 0x7D"

definition after_status_read :: NES where
  "after_status_read = snd (cpu_read after_first_scroll_write 0x2002)"

text \<open>The DuoVM cursor invariant of the specification.\<close>

definition cursor_ok :: "vm \<Rightarrow> bool" where
  "cursor_ok s = (unat (cur_x s) < SCREEN_W \<and> unat (cur_y s) < SCREEN_H)"

text \<open>
  \<open>cursor_load_ok s\<close>: if the instruction at the program counter is 0xA2 then the byte
  it loads into \<open>cur_x\<close>, \<open>mem[A]\<close>, is below 36, and if it is 0xA3 then the byte it
  loads into \<open>cur_y\<close> is below 24.  \<open>loads_ok bs s\<close>: this holds before every step of
  the run \<open>run bs s\<close>.
\<close>

definition cursor_load_ok :: "vm \<Rightarrow> bool" where
  "cursor_load_ok s =
     ((memory s (reg_PC s) = 0xA2 \<longrightarrow> unat (memory s (reg_A s)) < SCREEN_W) \<and>
      (memory s (reg_PC s) = 0xA3 \<longrightarrow> unat (memory s (reg_A s)) < SCREEN_H))"

fun loads_ok :: "button list \<Rightarrow> vm \<Rightarrow> bool" where
  "loads_ok [] s = True"
| "loads_ok (b # bs) s =
     (cursor_load_ok s \<and> (case step b s of Inl e \<Rightarrow> True | Inr s' \<Rightarrow> loads_ok bs s'))"

text \<open>The invariant carried through the guarded statements of one step with opcode \<open>opc\<close>.\<close>

definition step_inv :: "u8 \<Rightarrow> vm \<Rightarrow> bool" where
  "step_inv opc s =
     (cursor_ok s \<and>
      (opc = 0xA2 \<longrightarrow> unat (memory s (reg_A s)) < SCREEN_W) \<and>
      (opc = 0xA3 \<longrightarrow> unat (memory s (reg_A s)) < SCREEN_H))"

text \<open>
  Two DuoVM memory images.  \<open>set_x_program\<close> holds the single byte 0xA2 at address 0.
  \<open>set_x_in_range_program\<close> loads \<open>A\<close> with 0x0010 (opcode 0x00) and executes 0xA2;
  the byte at 0x0010 is 5.
\<close>

definition set_x_program :: "u16 \<Rightarrow> u8" where
  "set_x_program = (\<lambda>_. 0)(0 := 0xA2)"

definition set_x_in_range_program :: "u16 \<Rightarrow> u8" where
  "set_x_in_range_program = (\<lambda>_. 0)(0 := 0x00, 1 := 0x10, 2 := 0x00, 3 := 0xA2, 0x10 := 5)"

text \<open>
  The 16-bit operand of the instruction at the program counter: the opcode is fetched,
  then the low and the high operand byte.  The result is the operand and the machine
  after the three fetches.
\<close>

definition operand16 :: "NES \<Rightarrow> u16 \<times> NES" where
  "operand16 nes =
     (let (opcode, n1) = fetch nes;
          (lo, n2) = fetch n1;
          (hi, n3) = fetch n2
      in (push_bit 8 (ucast hi) OR ucast lo, n3))"

text \<open>
  Three machines for the example executions.  \<open>jmp_example\<close> has \<open>JMP ($10FF)\<close> at
  0x0200 and the bytes 0x34, 0x12, 0x56 at the CPU addresses 0x10FF, 0x1000, 0x1100
  (RAM cells 0x0FF, 0x000, 0x100 through the mirror).  \<open>jsr_example\<close> has \<open>JSR $0300\<close> at
  0x0200 and \<open>RTS\<close> at 0x0300.  \<open>rti_example\<close> has \<open>RTI\<close> at 0x0200 and zero bytes on
  the stack.
\<close>

definition jmp_example :: NES where
  "jmp_example =
     machine_with ((\<lambda>_. 0)(0x200 := 0x6C, 0x201 := 0xFF, 0x202 := 0x10,
                            0x0FF := 0x34, 0x000 := 0x12, 0x100 := 0x56)) 0x0200"

definition jsr_example :: NES where
  "jsr_example =
     machine_with ((\<lambda>_. 0)(0x200 := 0x20, 0x201 := 0x00, 0x202 := 0x03, 0x300 := 0x60)) 0x0200"

definition rti_example :: NES where
  "rti_example = machine_with ((\<lambda>_. 0)(0x200 := 0x40)) 0x0200"

text \<open>
  iNES images for the example loads: a header with the given bank counts and flag bytes,
  followed by zero bytes.  \<open>spec_mapper_number\<close> is the mapper number as the
  specification forms it: the upper nibble of byte 6 is its low nibble and the upper
  nibble of byte 7 its high nibble.  \<open>loaded_sizes\<close> reads the two sizes of a loaded
  cartridge.
\<close>

definition ines_header :: "u8 \<Rightarrow> u8 \<Rightarrow> u8 \<Rightarrow> u8 \<Rightarrow> u8 list" where
  "ines_header prg_banks chr_banks flags6 flags7 =
     [0x4E, 0x45, 0x53, 0x1A, prg_banks, chr_banks, flags6, flags7, 0, 0, 0, 0, 0, 0, 0, 0]"

definition spec_mapper_number :: "u8 list \<Rightarrow> u8" where
  "spec_mapper_number rom = (rom ! 7 AND 0xF0) OR drop_bit 4 (rom ! 6)"

definition mapper16_rom :: "u8 list" where
  "mapper16_rom = ines_header 1 0 0 0x10 @ replicate 16384 0"

definition three_prg_banks_rom :: "u8 list" where
  "three_prg_banks_rom = ines_header 3 0 0 0 @ replicate 49152 0"

definition two_chr_banks_rom :: "u8 list" where
  "two_chr_banks_rom = ines_header 1 2 0 0 @ replicate 32768 0"

definition loaded_sizes :: "parse_result \<Rightarrow> (nat \<times> nat) option" where
  "loaded_sizes r =
     (case r of Loaded c \<Rightarrow> Some (prg_rom_size c, chr_rom_size c) | _ \<Rightarrow> None)"

text \<open>
  \<open>keeps_status mode\<close>: the addressing mode leaves the status register as it is.
  \<open>documented_opcodes\<close>: the 151 opcodes that have a case in the switch of \<open>cpu_step\<close>.
\<close>

definition keeps_status :: "(NES \<Rightarrow> AddrResult \<times> NES) \<Rightarrow> bool" where
  "keeps_status mode = (\<forall>n. cpu_p (cpu (snd (mode n))) = cpu_p (cpu n))"

definition documented_opcodes :: "u8 set" where
  "documented_opcodes =
     {0x00, 0x01, 0x05, 0x06, 0x08, 0x09, 0x0A, 0x0D, 0x0E, 0x10, 0x11, 0x15, 0x16, 0x18,
      0x19, 0x1D, 0x1E, 0x20, 0x21, 0x24, 0x25, 0x26, 0x28, 0x29, 0x2A, 0x2C, 0x2D, 0x2E,
      0x30, 0x31, 0x35, 0x36, 0x38, 0x39, 0x3D, 0x3E, 0x40, 0x41, 0x45, 0x46, 0x48, 0x49,
      0x4A, 0x4C, 0x4D, 0x4E, 0x50, 0x51, 0x55, 0x56, 0x58, 0x59, 0x5D, 0x5E, 0x60, 0x61,
      0x65, 0x66, 0x68, 0x69, 0x6A, 0x6C, 0x6D, 0x6E, 0x70, 0x71, 0x75, 0x76, 0x78, 0x79,
      0x7D, 0x7E, 0x81, 0x84, 0x85, 0x86, 0x88, 0x8A, 0x8C, 0x8D, 0x8E, 0x90, 0x91, 0x94,
      0x95, 0x96, 0x98, 0x99, 0x9A, 0x9D, 0xA0, 0xA1, 0xA2, 0xA4, 0xA5, 0xA6, 0xA8, 0xA9,
      0xAA, 0xAC, 0xAD, 0xAE, 0xB0, 0xB1, 0xB4, 0xB5, 0xB6, 0xB8, 0xB9, 0xBA, 0xBC, 0xBD,
      0xBE, 0xC0, 0xC1, 0xC4, 0xC5, 0xC6, 0xC8, 0xC9, 0xCA, 0xCC, 0xCD, 0xCE, 0xD0, 0xD1,
      0xD5, 0xD6, 0xD8, 0xD9, 0xDD, 0xDE, 0xE0, 0xE1, 0xE4, 0xE5, 0xE6, 0xE8, 0xE9, 0xEA,
      0xEC, 0xED, 0xEE, 0xF0, 0xF1, 0xF5, 0xF6, 0xF8, 0xF9, 0xFD, 0xFE}"

text \<open>The CPU after reset with \<open>A = 0x50\<close>, for the ADC example of the specification.\<close>

definition adc_example :: CPU where
  "adc_example = (cpu_reset 0)\<lparr>cpu_a := 0x50\<rparr>"


section \<open>Properties of the Nessy PPU registers\<close>

lemmas flag_defs = FLAG_CARRY_def FLAG_ZERO_def FLAG_INTERRUPT_def FLAG_DECIMAL_def
  FLAG_BREAK_def FLAG_UNUSED_def FLAG_OVERFLOW_def FLAG_NEGATIVE_def

lemma bit_index_cases:
  "(i::nat) < 16 \<Longrightarrow> i \<in> {0, 1, 2, 3, 4, 5, 6, 7, 8, 9, 10, 11, 12, 13, 14, 15}"
  unfolding insert_iff empty_iff by arith

lemma ctrl_bits:
  "bit ((t AND 0xF3FF) OR push_bit 10 (ucast (v AND (0x03::u8))) :: u16) i
     = (if i = 10 then bit v 0 else if i = 11 then bit v 1 else bit t i)"
proof (cases "i < 16")
  case True
  from bit_index_cases [OF this] show ?thesis
    by (elim insertE emptyE) (simp_all add: bit_simps)
next
  case False
  then show ?thesis by (auto simp add: bit_simps dest: bit_imp_le_length)
qed

lemma cpu_write_ppu_range:
  "0x2000 \<le> addr \<Longrightarrow> addr < 0x4000 \<Longrightarrow> cpu_write nes addr v = ppu_write_register nes addr v"
  by (auto simp add: cpu_write_def)

text \<open>
  Claim C10.  A CPU write of \<open>v\<close> to PPU register 0 (any address in 0x2000 to 0x3FFF
  whose low three bits are 0, \<open>$2000\<close> among them) stores \<open>v\<close> in \<open>ctrl\<close> and copies bits
  0 and 1 of \<open>v\<close> into bits 10 and 11 of \<open>temp_addr\<close>.  Every other bit of \<open>temp_addr\<close>
  keeps its value, \<open>vram_addr\<close>, \<open>fine_x\<close>, \<open>scroll_latch\<close> and \<open>addr_latch\<close> are
  unchanged, and so is the rest of the machine: the state after the write is the state
  before it with only \<open>ctrl\<close> and \<open>temp_addr\<close> replaced.
\<close>

theorem ppu_ctrl_write_frame:
  assumes "0x2000 \<le> addr" and "addr < 0x4000" and "addr AND 0x7 = 0"
  shows "ctrl (ppu (cpu_write nes addr v)) = v
       \<and> (\<forall>i. bit (temp_addr (ppu (cpu_write nes addr v))) i =
              (if i = 10 then bit v 0 else if i = 11 then bit v 1
               else bit (temp_addr (ppu nes)) i))
       \<and> vram_addr (ppu (cpu_write nes addr v)) = vram_addr (ppu nes)
       \<and> fine_x (ppu (cpu_write nes addr v)) = fine_x (ppu nes)
       \<and> scroll_latch (ppu (cpu_write nes addr v)) = scroll_latch (ppu nes)
       \<and> addr_latch (ppu (cpu_write nes addr v)) = addr_latch (ppu nes)
       \<and> cpu_write nes addr v =
           nes\<lparr>ppu := (ppu nes)\<lparr>ctrl := v,
                 temp_addr := temp_addr (ppu (cpu_write nes addr v))\<rparr>\<rparr>"
proof -
  have w: "cpu_write nes addr v =
      nes\<lparr>ppu := (ppu nes)\<lparr>ctrl := v,
            temp_addr := (temp_addr (ppu nes) AND 0xF3FF) OR push_bit 10 (ucast (v AND 0x03))\<rparr>\<rparr>"
    using assms by (simp add: cpu_write_ppu_range ppu_write_register_def Let_def)
  show ?thesis
    unfolding w by (simp add: ctrl_bits)
qed

text \<open>The write of 0x82 to the mirror 0x2008 of register 0, on the machine after reset.\<close>

theorem ppu_ctrl_write_frame_witness:
  "(0x2000 :: u16) \<le> 0x2008 \<and> (0x2008 :: u16) < 0x4000 \<and> (0x2008 :: u16) AND 0x7 = 0
   \<and> ctrl (ppu (cpu_write (machine_with (\<lambda>_. 0) 0) 0x2008 0x82)) = 0x82
   \<and> bit (temp_addr (ppu (cpu_write (machine_with (\<lambda>_. 0) 0) 0x2008 0x82))) 11
   \<and> \<not> bit (temp_addr (ppu (cpu_write (machine_with (\<lambda>_. 0) 0) 0x2008 0x82))) 10
   \<and> addr_latch (ppu (cpu_write (machine_with (\<lambda>_. 0) 0) 0x2008 0x82)) = 0"
proof -
  have h: "(0x2000 :: u16) \<le> 0x2008" "(0x2008 :: u16) < 0x4000" "(0x2008 :: u16) AND 0x7 = 0"
    by simp_all
  from ppu_ctrl_write_frame [OF h, of "machine_with (\<lambda>_. 0) 0" "0x82"]
  show ?thesis by (simp add: machine_with_def ppu_reset_def)
qed

lemma ppu_read_status:
  "addr AND 0x7 = 2 \<Longrightarrow>
   ppu_read_register nes addr =
     (status (ppu nes),
      nes\<lparr>ppu := (ppu nes)\<lparr>status := status (ppu nes) AND NOT 0x80, addr_latch := 0\<rparr>\<rparr>)"
  by (simp add: ppu_read_register_def Let_def)

text \<open>A read of register 2 never changes \<open>scroll_latch\<close>, the toggle of register 5.\<close>

lemma status_read_scroll_latch:
  "addr AND 0x7 = 2 \<Longrightarrow>
   scroll_latch (ppu (snd (ppu_read_register nes addr))) = scroll_latch (ppu nes)"
  by (simp add: ppu_read_status)

lemma after_first_scroll_write_ppu:
  "ppu after_first_scroll_write = ppu_reset\<lparr>fine_x := 5, temp_addr := 0x000F, scroll_latch := 1\<rparr>"
  by (simp add: after_first_scroll_write_def machine_with_def cpu_write_def
      ppu_write_register_def Let_def ppu_reset_def)

lemma after_status_read_ppu:
  "ppu after_status_read =
     ppu_reset\<lparr>status := 0x20, fine_x := 5, temp_addr := 0x000F, scroll_latch := 1\<rparr>"
  by (simp add: after_status_read_def cpu_read_def ppu_read_status
      after_first_scroll_write_ppu ppu_reset_def)

text \<open>
  Claim C2.  The source keeps two toggles, \<open>scroll_latch\<close> for register 5 and
  \<open>addr_latch\<close> for register 6, and a read of register 2 resets only \<open>addr_latch\<close>.
  After reset and a first write of 0x7D to \<open>$2005\<close>, the CPU read of \<open>$2002\<close> returns
  the status byte 0xA0, clears status bit 7 and leaves \<open>addr_latch\<close> at 0, but
  \<open>scroll_latch\<close> is still 1.  The next write to \<open>$2005\<close>, of 0x5A, is therefore
  treated as a second write: \<open>fine_x\<close> keeps the value 5 of the first write (a first
  write would have set it to 2), fine Y and coarse Y are packed into \<open>temp_addr\<close>, and
  \<open>scroll_latch\<close> goes back to 0.
\<close>

theorem status_read_leaves_scroll_toggle:
  "fst (cpu_read after_first_scroll_write 0x2002) = 0xA0
   \<and> status (ppu after_status_read) = 0x20
   \<and> addr_latch (ppu after_status_read) = 0
   \<and> scroll_latch (ppu after_first_scroll_write) = 1
   \<and> scroll_latch (ppu after_status_read) = 1
   \<and> fine_x (ppu (cpu_write after_status_read 0x2005 0x5A)) = 5
   \<and> temp_addr (ppu (cpu_write after_status_read 0x2005 0x5A)) = 0x216F
   \<and> scroll_latch (ppu (cpu_write after_status_read 0x2005 0x5A)) = 0"
  apply (intro conjI)
  apply (simp_all add: after_status_read_ppu cpu_write_def ppu_write_register_def Let_def
      ppu_reset_def)
  apply (simp_all add: after_first_scroll_write_ppu cpu_read_def ppu_read_status ppu_reset_def)
  done

section \<open>Properties of the DuoVM\<close>

subsection \<open>The memory accessors never report an out-of-bounds address\<close>

lemma check_addr_None: "check_addr a = None"
proof -
  have "unat a < 2 ^ 16" using unsigned_less [of a] by simp
  then show ?thesis by (simp add: check_addr_def MEM_SIZE_def)
qed

lemma mem_read_total: "mem_read s a = Inr (memory s a)"
  by (simp add: mem_read_def check_addr_None)

lemma mem_read16_total:
  "mem_read16 s a = Inr (ucast (memory s a) OR push_bit 8 (ucast (memory s (of_nat (unat a + 1)))))"
  by (simp add: mem_read16_def mem_read_total bind_err_def)

lemma mem_write_cases:
  "mem_write a v s = (if unat a < SRAM_START then Inl (Write_to_ROM a)
                      else Inr (s\<lparr>memory := (memory s)(a := v)\<rparr>))"
  by (simp add: mem_write_def check_addr_None)


lemma seq_preserves:
  assumes "\<And>f s s'. f \<in> set fs \<Longrightarrow> P s \<Longrightarrow> f s = Inr s' \<Longrightarrow> P s'"
  shows "P s \<Longrightarrow> seq fs s = Inr s' \<Longrightarrow> P s'"
  using assms
proof (induction fs arbitrary: s)
  case Nil
  then show ?case by simp
next
  case (Cons f fs)
  from Cons.prems(2) obtain s1 where f: "f s = Inr s1" and r: "seq fs s1 = Inr s'"
    by (auto split: sum.splits)
  have "P s1" using Cons.prems(3) [of f s s1] Cons.prems(1) f by simp
  moreover have "\<And>g t t'. g \<in> set fs \<Longrightarrow> P t \<Longrightarrow> g t = Inr t' \<Longrightarrow> P t'"
    using Cons.prems(3) by (meson list.set_intros(2))
  ultimately show ?case using Cons.IH [of s1] r by blast
qed

lemma seq_no_error:
  assumes "\<And>f s. f \<in> set fs \<Longrightarrow> f s \<noteq> Inl e"
  shows "seq fs s \<noteq> Inl e"
  using assms
proof (induction fs arbitrary: s)
  case Nil
  then show ?case by simp
next
  case (Cons f fs)
  then show ?case by (auto split: sum.splits)
qed

lemma write_alu_dest_no_oob: "write_alu_dest d v s \<noteq> Inl (Memory_OOB a)"
  by (simp add: write_alu_dest_def mem_write_cases)

lemma step_body_no_oob: "f \<in> set (step_body b opc) \<Longrightarrow> f s \<noteq> Inl (Memory_OOB a)"
  by (auto simp add: step_body_def Let_def when_op_def bind_err_def mem_read_total mem_read16_total
       write_alu_dest_no_oob mem_write_cases split: if_splits)

lemma step_no_oob: "step b s \<noteq> Inl (Memory_OOB a)"
  by (simp add: step_def mem_read_total bind_err_def seq_no_error step_body_no_oob)

lemma run_no_oob: "run bs s \<noteq> Inl (Memory_OOB a)"
  by (induction bs arbitrary: s) (auto split: sum.splits simp: step_no_oob)

lemma high_address_wraps: "(of_nat (unat (0xFFFF :: u16) + 1) :: u16) = 0"
  by simp

text \<open>
  Claim C9.  \<open>check_addr\<close> never reports an error: its argument is a 16-bit value, which
  is below 65536.  So \<open>mem_read\<close> always returns the byte at the address, \<open>mem_write\<close>
  fails only with the write-to-ROM error, and no step and no run of the machine ends in
  the out-of-bounds abort.  \<open>mem_read16\<close> at address 0xFFFF reads its low byte at 0xFFFF
  and its high byte at address 0x0000.
\<close>

theorem memory_oob_unreachable:
  "check_addr a = None
   \<and> mem_read s a = Inr (memory s a)
   \<and> mem_write a v s \<noteq> Inl (Memory_OOB a')
   \<and> step b s \<noteq> Inl (Memory_OOB a')
   \<and> run bs s \<noteq> Inl (Memory_OOB a')
   \<and> mem_read16 s 0xFFFF = Inr (ucast (memory s 0xFFFF) OR push_bit 8 (ucast (memory s 0)))"
proof -
  have "mem_read16 s 0xFFFF = Inr (ucast (memory s 0xFFFF) OR push_bit 8 (ucast (memory s 0)))"
    by (simp only: mem_read16_total high_address_wraps)
  then show ?thesis
    by (simp add: check_addr_None mem_read_total mem_write_cases step_no_oob run_no_oob)
qed

subsection \<open>The cursor\<close>

lemma put_char_cursor_ok: "cursor_ok s \<Longrightarrow> cursor_ok (put_char_vm ch s)"
proof -
  assume ok: "cursor_ok s"
  have x: "unat (cur_x s) < 36" and y: "unat (cur_y s) < 24"
    using ok by (simp_all add: cursor_ok_def SCREEN_W_def SCREEN_H_def)
  have x1: "unat (cur_x s + 1) = unat (cur_x s) + 1"
    using x by (simp add: unat_word_ariths)
  have y1: "unat (cur_y s + 1) = unat (cur_y s) + 1"
    using y by (simp add: unat_word_ariths)
  show ?thesis
    using x y by (simp add: put_char_vm_def cursor_ok_def Let_def x1 y1 SCREEN_W_def SCREEN_H_def)
qed

lemma clear_screen_cursor [simp]:
  "cur_x (clear_screen_vm s) = cur_x s" "cur_y (clear_screen_vm s) = cur_y s"
  by (simp_all add: clear_screen_vm_def)

lemma write_alu_dest_cursor:
  "write_alu_dest d v s = Inr s' \<Longrightarrow> cur_x s' = cur_x s \<and> cur_y s' = cur_y s"
  by (auto simp add: write_alu_dest_def mem_write_cases split: if_splits)

lemma step_body_inv:
  "f \<in> set (step_body b opc) \<Longrightarrow> step_inv opc s \<Longrightarrow> f s = Inr s' \<Longrightarrow> step_inv opc s'"
  apply (simp add: step_body_def Let_def)
  apply (elim disjE)
  apply (auto simp add: when_op_def bind_err_def mem_read_total mem_read16_total step_inv_def
       cursor_ok_def put_char_cursor_ok [unfolded cursor_ok_def]
       mem_write_cases split: if_splits dest!: write_alu_dest_cursor)
  done

lemma step_cursor_ok:
  assumes "cursor_ok s" and "cursor_load_ok s" and "step b s = Inr s'"
  shows "cursor_ok s'"
proof -
  let ?opc = "memory s (reg_PC s)"
  let ?s0 = "s\<lparr>reg_PC := reg_PC s + 1\<rparr>"
  have r: "seq (step_body b ?opc) ?s0 = Inr s'"
    using assms(3) by (simp add: step_def mem_read_total bind_err_def)
  have i: "step_inv ?opc ?s0"
    using assms(1,2) by (simp add: step_inv_def cursor_load_ok_def cursor_ok_def)
  have "step_inv ?opc s'"
    by (rule seq_preserves [where P = "step_inv ?opc", OF _ i r]) (rule step_body_inv)
  then show ?thesis by (simp add: step_inv_def)
qed

lemma cold_start_fields [simp]:
  "memory (cold_start m) = m" "reg_PC (cold_start m) = 0" "reg_A (cold_start m) = 0"
  "cur_x (cold_start m) = 0" "cur_y (cold_start m) = 0"
  by (simp_all add: cold_start_def clear_screen_vm_def)

lemma cold_start_cursor_ok: "cursor_ok (cold_start m)"
  by (simp add: cursor_ok_def SCREEN_W_def SCREEN_H_def)

lemma run_cursor_ok:
  "cursor_ok s \<Longrightarrow> loads_ok bs s \<Longrightarrow> run bs s = Inr s' \<Longrightarrow> cursor_ok s'"
proof (induction bs arbitrary: s)
  case Nil
  then show ?case by simp
next
  case (Cons b bs)
  from Cons.prems(3) obtain s1 where s1: "step b s = Inr s1" and r: "run bs s1 = Inr s'"
    by (auto split: sum.splits)
  have "cursor_ok s1" using step_cursor_ok [OF Cons.prems(1) _ s1] Cons.prems(2) by simp
  moreover have "loads_ok bs s1" using Cons.prems(2) s1 by simp
  ultimately show ?case using Cons.IH r by blast
qed

text \<open>
  Claim C8, as amended.  Opcodes 0xA2 and 0xA3 store the byte \<open>mem[A]\<close> in \<open>cur_x\<close> and
  \<open>cur_y\<close> without any check.  The cursor invariant holds in every state reached from
  cold start by a run in which each executed 0xA2 loads a byte below 36 and each executed
  0xA3 a byte below 24.
\<close>

theorem cursor_invariant_guarded:
  "loads_ok bs (cold_start m) \<Longrightarrow> run bs (cold_start m) = Inr s \<Longrightarrow> cursor_ok s"
  using run_cursor_ok [OF cold_start_cursor_ok] by blast

text \<open>
  Two steps of \<open>set_x_in_range_program\<close>: \<open>A\<close> becomes 0x0010, then 0xA2 sets \<open>cur_x\<close>
  to 5.
\<close>

lemma step_load_A:
  "step LEFT (cold_start set_x_in_range_program) =
     Inr ((cold_start set_x_in_range_program)\<lparr>reg_PC := 3, reg_A := 0x10\<rparr>)"
  by (simp add: step_def mem_read_total mem_read16_total bind_err_def step_body_def
      when_op_def Let_def set_x_in_range_program_def)

lemma step_set_x_in_range:
  "step LEFT ((cold_start set_x_in_range_program)\<lparr>reg_PC := 3, reg_A := 0x10\<rparr>) =
     Inr ((cold_start set_x_in_range_program)\<lparr>reg_PC := 4, reg_A := 0x10, cur_x := 5\<rparr>)"
  by (simp add: step_def mem_read_total bind_err_def step_body_def
      when_op_def Let_def set_x_in_range_program_def)

theorem cursor_invariant_guarded_witness:
  "loads_ok [LEFT, LEFT] (cold_start set_x_in_range_program)
   \<and> run [LEFT, LEFT] (cold_start set_x_in_range_program) =
       Inr ((cold_start set_x_in_range_program)\<lparr>reg_PC := 4, reg_A := 0x10, cur_x := 5\<rparr>)
   \<and> cursor_ok ((cold_start set_x_in_range_program)\<lparr>reg_PC := 4, reg_A := 0x10, cur_x := 5\<rparr>)"
proof -
  have l: "loads_ok [LEFT, LEFT] (cold_start set_x_in_range_program)"
    by (simp add: step_load_A step_set_x_in_range cursor_load_ok_def)
       (simp add: set_x_in_range_program_def SCREEN_W_def)
  have r: "run [LEFT, LEFT] (cold_start set_x_in_range_program) =
       Inr ((cold_start set_x_in_range_program)\<lparr>reg_PC := 4, reg_A := 0x10, cur_x := 5\<rparr>)"
    by (simp add: step_load_A step_set_x_in_range)
  from cursor_invariant_guarded [OF l r] l r show ?thesis by simp
qed

text \<open>
  Claim C8 as stated fails.  The memory image \<open>set_x_program\<close> has the byte 0xA2 at
  address 0.  From cold start (\<open>A = 0\<close>) the first step fetches opcode 0xA2 and loads
  \<open>cur_x\<close> from \<open>mem[0]\<close>, which is 0xA2 = 162: the state reached has \<open>cur_x\<close> outside
  \<open>[0, 36)\<close>.
\<close>

lemma step_set_x:
  "step LEFT (cold_start set_x_program) = Inr ((cold_start set_x_program)\<lparr>reg_PC := 1, cur_x := 0xA2\<rparr>)"
  by (simp add: step_def mem_read_total bind_err_def step_body_def when_op_def Let_def set_x_program_def)

theorem cursor_invariant_counterexample:
  "run [LEFT] (cold_start set_x_program) = Inr ((cold_start set_x_program)\<lparr>reg_PC := 1, cur_x := 0xA2\<rparr>)
   \<and> \<not> cursor_ok ((cold_start set_x_program)\<lparr>reg_PC := 1, cur_x := 0xA2\<rparr>)"
  by (simp add: step_set_x cursor_ok_def SCREEN_W_def)

section \<open>Properties of the Nessy CPU\<close>

subsection \<open>Bytes, bits and signed values\<close>

lemma u8_unat_lt: "unat (w :: u8) < 256"
  using unsigned_less [of w] by simp

lemma div128: "(n::nat) < 256 \<Longrightarrow> odd (n div 128) \<longleftrightarrow> 128 \<le> n"
proof (cases "n < 128")
  case True
  then show ?thesis by simp
next
  case False
  assume "n < 256"
  with False have "n div 128 = 1" by arith
  with False show ?thesis by simp
qed

lemma u8_bit7_unat: "bit (w :: u8) 7 \<longleftrightarrow> 128 \<le> unat w"
proof -
  have "bit w 7 \<longleftrightarrow> bit (unat w) 7"
    by (simp add: bit_unsigned_iff)
  also have "\<dots> \<longleftrightarrow> odd (unat w div 2 ^ 7)"
    by (simp only: bit_iff_odd)
  also have "\<dots> \<longleftrightarrow> 128 \<le> unat w"
    using div128 [OF u8_unat_lt [of w]] by simp
  finally show ?thesis .
qed

lemma u8_sint: "sint (w :: u8) = (if 128 \<le> unat w then int (unat w) - 256 else int (unat w))"
proof -
  have neg: "(sint w < 0) = (128 \<le> unat w)"
    using bit_last_iff [of w] by (simp add: u8_bit7_unat)
  have u: "uint w = take_bit 8 (sint w)"
    using uint_sint [of w] by simp
  have r: "- 128 \<le> sint w" "sint w < 128"
    using sint_ge [of w] sint_lt [of w] by simp_all
  have m: "take_bit 8 (sint w) = sint w mod 256"
    by (simp only: take_bit_eq_mod) simp
  have "int (unat w) = uint w" by simp
  also have "\<dots> = sint w mod 256" by (simp only: u m)
  finally have e: "int (unat w) = sint w mod 256" .
  show ?thesis
  proof (cases "128 \<le> unat w")
    case True
    with neg have "sint w < 0" by simp
    with r have "sint w mod 256 = sint w + 256" by arith
    with e True show ?thesis by simp
  next
    case False
    with neg have "0 \<le> sint w" by simp
    with r have "sint w mod 256 = sint w" by simp
    with e False show ?thesis by simp
  qed
qed

lemma unat_ucast_u8_u16: "unat (ucast (a::u8) :: u16) = unat a"
proof -
  have "unat a < 2 ^ 16" using u8_unat_lt [of a] by simp
  then show ?thesis by (simp add: unsigned_ucast_eq take_bit_nat_eq_self)
qed

lemma adc_sum:
  "unat ((ucast (a::u8) :: u16) + ucast (m::u8) + (if cb then 1 else 0))
     = unat a + unat m + (if cb then 1 else 0)"
proof -
  have "Suc (unat a + unat m) < 65536"
    using u8_unat_lt [of a] u8_unat_lt [of m] by simp
  then show ?thesis
    by (cases cb) (simp_all add: unat_word_ariths unat_ucast_u8_u16)
qed

lemma ucast_u16_u8: "unat (ucast (w :: u16) :: u8) = unat w mod 256"
  by (simp add: unsigned_ucast_eq take_bit_eq_mod)

lemma u16_gt_255: "((w :: u16) > 0xFF) = (255 < unat w)"
  by (simp add: word_less_nat_alt)

lemma flag_bits:
  "(p AND FLAG_CARRY \<noteq> 0) = bit p 0"
  "(p AND FLAG_ZERO \<noteq> 0) = bit p 1"
  "(p AND FLAG_INTERRUPT \<noteq> 0) = bit p 2"
  "(p AND FLAG_DECIMAL \<noteq> 0) = bit p 3"
  "(p AND FLAG_BREAK \<noteq> 0) = bit p 4"
  "(p AND FLAG_UNUSED \<noteq> 0) = bit p 5"
  "(p AND FLAG_OVERFLOW \<noteq> 0) = bit p 6"
  "(p AND FLAG_NEGATIVE \<noteq> 0) = bit p 7"
  for p :: u8
  by (simp_all add: flag_defs bit_iff_and_push_bit_not_eq_0)

lemma and80: "((w::u8) AND 0x80 \<noteq> 0) = bit w 7"
  by (simp add: bit_iff_and_push_bit_not_eq_0)

lemma disjoint_bits: "f AND g = 0 \<Longrightarrow> \<not> (bit f n \<and> bit g n)" for f g :: u8
proof -
  assume "f AND g = 0"
  then have "bit (f AND g) n = bit (0::u8) n" by simp
  then show ?thesis by (simp add: bit_and_iff)
qed

lemma keep_or: "f AND g = 0 \<Longrightarrow> (p OR f) AND g = p AND g" for f g p :: u8
  by (rule bit_eqI) (auto simp add: bit_simps dest: disjoint_bits)

lemma keep_andnot: "f AND g = 0 \<Longrightarrow> (p AND NOT f) AND g = p AND g" for f g p :: u8
  by (rule bit_eqI) (auto simp add: bit_simps dest: disjoint_bits)

lemma set_zn_p:
  "cpu_p (cpu_set_zn c v) =
     (if v AND 0x80 \<noteq> 0
      then (if v = 0 then cpu_p c OR FLAG_ZERO else cpu_p c AND NOT FLAG_ZERO) OR FLAG_NEGATIVE
      else (if v = 0 then cpu_p c OR FLAG_ZERO else cpu_p c AND NOT FLAG_ZERO) AND NOT FLAG_NEGATIVE)"
  by (simp add: cpu_set_zn_def Let_def)

lemma set_zn_other:
  "cpu_a (cpu_set_zn c v) = cpu_a c" "cpu_x (cpu_set_zn c v) = cpu_x c"
  "cpu_y (cpu_set_zn c v) = cpu_y c" "cpu_sp (cpu_set_zn c v) = cpu_sp c"
  "cpu_pc (cpu_set_zn c v) = cpu_pc c" "cpu_cycles (cpu_set_zn c v) = cpu_cycles c"
  by (simp_all add: cpu_set_zn_def Let_def)

lemma set_zn_bits:
  "bit (cpu_p (cpu_set_zn c v)) 1 = (v = 0)"
  "bit (cpu_p (cpu_set_zn c v)) 7 = bit v 7"
  "bit (cpu_p (cpu_set_zn c v)) 0 = bit (cpu_p c) 0"
  "bit (cpu_p (cpu_set_zn c v)) 6 = bit (cpu_p c) 6"
  by (simp_all add: set_zn_p and80 flag_defs bit_simps)

lemma set_zn_keep:
  "FLAG_ZERO AND g = 0 \<Longrightarrow> FLAG_NEGATIVE AND g = 0 \<Longrightarrow> cpu_p (cpu_set_zn c v) AND g = cpu_p c AND g"
  by (simp add: set_zn_p keep_or keep_andnot)

lemma overflow_arith:
  fixes a m k :: nat
  assumes "a < 256" "m < 256" "k \<le> 1"
  shows "(((128 \<le> a) = (128 \<le> m)) \<and> ((128 \<le> a) \<noteq> (128 \<le> (a + m + k) mod 256)))
       = ((if 128 \<le> a then int a - 256 else int a) + (if 128 \<le> m then int m - 256 else int m) + int k < - 128
          \<or> 127 < (if 128 \<le> a then int a - 256 else int a) + (if 128 \<le> m then int m - 256 else int m) + int k)"
proof (cases "128 \<le> a"; cases "128 \<le> m")
  assume h: "128 \<le> a" "128 \<le> m"
  then have "(a + m + k) mod 256 = a + m + k - 256" using assms by (simp add: mod_if) 
  then show ?thesis using h assms by simp arith
next
  assume h: "128 \<le> a" "\<not> 128 \<le> m"
  then show ?thesis using assms by simp
next
  assume h: "\<not> 128 \<le> a" "128 \<le> m"
  then show ?thesis using assms by simp
next
  assume h: "\<not> 128 \<le> a" "\<not> 128 \<le> m"
  then have "(a + m + k) mod 256 = a + m + k" using assms by simp
  then show ?thesis using h assms by simp arith
qed

subsection \<open>ADC\<close>

lemma cpu_adc_unfold:
  "cpu_adc c m =
     cpu_set_zn
       (c\<lparr>cpu_p :=
            (if NOT (cpu_a c XOR m) AND (cpu_a c XOR ucast (adc_sum16 c m)) AND 0x80 \<noteq> 0
             then (if adc_sum16 c m > 0xFF then cpu_p c OR FLAG_CARRY
                   else cpu_p c AND NOT FLAG_CARRY) OR FLAG_OVERFLOW
             else (if adc_sum16 c m > 0xFF then cpu_p c OR FLAG_CARRY
                   else cpu_p c AND NOT FLAG_CARRY) AND NOT FLAG_OVERFLOW),
          cpu_a := ucast (adc_sum16 c m)\<rparr>)
       (ucast (adc_sum16 c m))"
  by (simp add: cpu_adc_def Let_def adc_sum16_def)

lemma if_flag_bits:
  "bit (if b then q OR FLAG_CARRY else q AND NOT FLAG_CARRY) 0 = b"
  "bit (if b then q OR FLAG_OVERFLOW else q AND NOT FLAG_OVERFLOW) 6 = b"
  "bit (if b then q OR FLAG_OVERFLOW else q AND NOT FLAG_OVERFLOW) 0 = bit q 0"
  by (simp_all add: flag_defs bit_simps)

lemma adc_sum16_unat: "unat (adc_sum16 c m) = unat (cpu_a c) + unat m + carry_of c"
  unfolding adc_sum16_def carry_of_def by (rule adc_sum)

lemma cpu_adc_a: "cpu_a (cpu_adc c m) = ucast (adc_sum16 c m)"
  unfolding cpu_adc_unfold by (simp add: set_zn_other)

lemma cpu_adc_frame:
  "cpu_x (cpu_adc c m) = cpu_x c" "cpu_y (cpu_adc c m) = cpu_y c"
  "cpu_sp (cpu_adc c m) = cpu_sp c" "cpu_pc (cpu_adc c m) = cpu_pc c"
  "cpu_cycles (cpu_adc c m) = cpu_cycles c"
  unfolding cpu_adc_unfold by (simp_all add: set_zn_other)

lemma cpu_adc_unat_a:
  "unat (cpu_a (cpu_adc c m)) = (unat (cpu_a c) + unat m + carry_of c) mod 256"
  by (simp add: cpu_adc_a ucast_u16_u8 adc_sum16_unat)

lemma cpu_adc_carry:
  "bit (cpu_p (cpu_adc c m)) 0 = (255 < unat (cpu_a c) + unat m + carry_of c)"
proof -
  have "bit (cpu_p (cpu_adc c m)) 0 = (adc_sum16 c m > 0xFF)"
    unfolding cpu_adc_unfold set_zn_bits by (simp add: if_flag_bits)
  then show ?thesis by (simp add: u16_gt_255 adc_sum16_unat)
qed

lemma cpu_adc_overflow_bit:
  "bit (cpu_p (cpu_adc c m)) 6 =
     ((bit (cpu_a c) 7 = bit m 7) \<and> (bit (cpu_a c) 7 \<noteq> bit (cpu_a (cpu_adc c m)) 7))"
proof -
  have "bit (cpu_p (cpu_adc c m)) 6 =
      (NOT (cpu_a c XOR m) AND (cpu_a c XOR ucast (adc_sum16 c m)) AND 0x80 \<noteq> 0)"
    unfolding cpu_adc_unfold set_zn_bits by (simp add: if_flag_bits)
  also have "\<dots> = bit (NOT (cpu_a c XOR m) AND (cpu_a c XOR ucast (adc_sum16 c m))) 7"
    by (simp only: and.assoc [symmetric] and80)
  also have "\<dots> = ((bit (cpu_a c) 7 = bit m 7)
                   \<and> (bit (cpu_a c) 7 \<noteq> bit (ucast (adc_sum16 c m) :: u8) 7))"
    by (simp only: bit_and_iff bit_not_iff bit_xor_iff) auto
  finally show ?thesis by (simp only: cpu_adc_a)
qed

lemma carry_of_le: "carry_of c \<le> 1"
  by (simp add: carry_of_def)

lemma cpu_adc_overflow:
  "bit (cpu_p (cpu_adc c m)) 6 =
     (sint (cpu_a c) + sint m + int (carry_of c) < - 128
      \<or> 127 < sint (cpu_a c) + sint m + int (carry_of c))"
  unfolding cpu_adc_overflow_bit u8_bit7_unat cpu_adc_unat_a u8_sint
  by (rule overflow_arith [OF u8_unat_lt u8_unat_lt carry_of_le])

lemma cpu_adc_zn:
  "bit (cpu_p (cpu_adc c m)) 1 = (cpu_a (cpu_adc c m) = 0)"
  "bit (cpu_p (cpu_adc c m)) 7 = bit (cpu_a (cpu_adc c m)) 7"
  unfolding cpu_adc_a unfolding cpu_adc_unfold set_zn_bits by simp_all

lemma cpu_adc_keep:
  "cpu_p (cpu_adc c m) AND (FLAG_INTERRUPT OR FLAG_DECIMAL OR FLAG_BREAK OR FLAG_UNUSED)
     = cpu_p c AND (FLAG_INTERRUPT OR FLAG_DECIMAL OR FLAG_BREAK OR FLAG_UNUSED)"
proof -
  have z: "FLAG_ZERO AND (FLAG_INTERRUPT OR FLAG_DECIMAL OR FLAG_BREAK OR FLAG_UNUSED) = 0"
    and n: "FLAG_NEGATIVE AND (FLAG_INTERRUPT OR FLAG_DECIMAL OR FLAG_BREAK OR FLAG_UNUSED) = 0"
    and cc: "FLAG_CARRY AND (FLAG_INTERRUPT OR FLAG_DECIMAL OR FLAG_BREAK OR FLAG_UNUSED) = 0"
    and v: "FLAG_OVERFLOW AND (FLAG_INTERRUPT OR FLAG_DECIMAL OR FLAG_BREAK OR FLAG_UNUSED) = 0"
    by (simp_all add: flag_defs)
  show ?thesis
    unfolding cpu_adc_unfold set_zn_keep [OF z n]
    by (simp add: keep_or [OF cc] keep_andnot [OF cc] keep_or [OF v] keep_andnot [OF v])
qed

text \<open>
  Claim C5.  For every CPU state \<open>c\<close> and operand byte \<open>m\<close>, with
  \<open>r = A + M + C\<close> taken on the natural numbers: the new \<open>A\<close> is \<open>r mod 256\<close>; the new
  carry is \<open>r > 0xFF\<close>; the new overflow flag is set exactly when the signed sum of \<open>A\<close>,
  \<open>M\<close> (both read as two's complement) and \<open>C\<close> is outside \<open>[-128, 127]\<close>; the new zero
  flag is set exactly when the new \<open>A\<close> is 0 and the new negative flag is bit 7 of the new
  \<open>A\<close>.  The flags I, D, B and U keep their values, and so do \<open>X\<close>, \<open>Y\<close>, \<open>SP\<close>, \<open>PC\<close> and
  the cycle count.
\<close>

theorem cpu_adc_spec:
  "unat (cpu_a (cpu_adc c m)) = (unat (cpu_a c) + unat m + carry_of c) mod 256
   \<and> (cpu_p (cpu_adc c m) AND FLAG_CARRY \<noteq> 0) = (0xFF < unat (cpu_a c) + unat m + carry_of c)
   \<and> (cpu_p (cpu_adc c m) AND FLAG_OVERFLOW \<noteq> 0) =
        (sint (cpu_a c) + sint m + int (carry_of c) < - 128
         \<or> 127 < sint (cpu_a c) + sint m + int (carry_of c))
   \<and> (cpu_p (cpu_adc c m) AND FLAG_ZERO \<noteq> 0) = (cpu_a (cpu_adc c m) = 0)
   \<and> (cpu_p (cpu_adc c m) AND FLAG_NEGATIVE \<noteq> 0) = bit (cpu_a (cpu_adc c m)) 7
   \<and> cpu_p (cpu_adc c m) AND (FLAG_INTERRUPT OR FLAG_DECIMAL OR FLAG_BREAK OR FLAG_UNUSED)
        = cpu_p c AND (FLAG_INTERRUPT OR FLAG_DECIMAL OR FLAG_BREAK OR FLAG_UNUSED)
   \<and> cpu_x (cpu_adc c m) = cpu_x c \<and> cpu_y (cpu_adc c m) = cpu_y c
   \<and> cpu_sp (cpu_adc c m) = cpu_sp c \<and> cpu_pc (cpu_adc c m) = cpu_pc c
   \<and> cpu_cycles (cpu_adc c m) = cpu_cycles c"
  unfolding flag_bits
  by (intro conjI cpu_adc_unat_a cpu_adc_overflow cpu_adc_zn cpu_adc_keep cpu_adc_frame)
     (simp add: cpu_adc_carry)

text \<open>
  The scenario of the specification: \<open>A = 0x50\<close>, \<open>M = 0x50\<close>, \<open>C = 0\<close> give
  \<open>A = 0xA0\<close>, \<open>C = 0\<close>, \<open>V = 1\<close>, \<open>N = 1\<close>, \<open>Z = 0\<close>.
\<close>

lemma adc_example_result:
  "cpu_adc adc_example 0x50 = adc_example\<lparr>cpu_a := 0xA0, cpu_p := 0xE4\<rparr>"
  by (simp add: cpu_adc_def cpu_set_zn_def adc_example_def cpu_reset_def Let_def flag_defs)

theorem cpu_adc_spec_witness:
  "cpu_a adc_example = 0x50 \<and> carry_of adc_example = 0
   \<and> cpu_a (cpu_adc adc_example 0x50) = 0xA0
   \<and> cpu_p (cpu_adc adc_example 0x50) AND FLAG_CARRY = 0
   \<and> cpu_p (cpu_adc adc_example 0x50) AND FLAG_OVERFLOW \<noteq> 0
   \<and> cpu_p (cpu_adc adc_example 0x50) AND FLAG_NEGATIVE \<noteq> 0
   \<and> cpu_p (cpu_adc adc_example 0x50) AND FLAG_ZERO = 0"
proof -
  have a: "cpu_a adc_example = 0x50" and c: "carry_of adc_example = 0"
    by (simp_all add: adc_example_def cpu_reset_def carry_of_def flag_defs)
  have s: "sint (0x50 :: u8) = 80" by simp
  have u: "unat (0x50 :: u8) = 80" by simp
  from cpu_adc_spec [of adc_example "0x50"]
  have "unat (cpu_a (cpu_adc adc_example 0x50)) = 160"
    and "cpu_p (cpu_adc adc_example 0x50) AND FLAG_CARRY = 0"
    and "cpu_p (cpu_adc adc_example 0x50) AND FLAG_OVERFLOW \<noteq> 0"
    and z: "(cpu_p (cpu_adc adc_example 0x50) AND FLAG_ZERO \<noteq> 0) = (cpu_a (cpu_adc adc_example 0x50) = 0)"
    and n: "(cpu_p (cpu_adc adc_example 0x50) AND FLAG_NEGATIVE \<noteq> 0) = bit (cpu_a (cpu_adc adc_example 0x50)) 7"
    by (simp_all add: a c s u)
  moreover from this(1) have r: "cpu_a (cpu_adc adc_example 0x50) = 0xA0"
    by (simp add: word_unat_eq_iff)
  ultimately show ?thesis using a c by (simp add: r)
qed

subsection \<open>Reads and fetches leave the CPU, the RAM and the cartridge alone\<close>

lemma ppu_read_register_frame:
  "cpu (snd (ppu_read_register n a)) = cpu n"
  "ram (snd (ppu_read_register n a)) = ram n"
  "cart (snd (ppu_read_register n a)) = cart n"
  by (simp_all add: ppu_read_register_def Let_def)

lemma cpu_read_frame:
  "cpu (snd (cpu_read n a)) = cpu n"
  "ram (snd (cpu_read n a)) = ram n"
  "cart (snd (cpu_read n a)) = cart n"
  by (simp_all add: cpu_read_def Let_def ppu_read_register_frame)

lemma fetch_frame:
  "cpu (snd (fetch n)) = (cpu n)\<lparr>cpu_pc := cpu_pc (cpu n) + 1\<rparr>"
  "ram (snd (fetch n)) = ram n"
  "cart (snd (fetch n)) = cart n"
  by (simp_all add: fetch_def Let_def cpu_read_frame)

lemma add_cycles_fields:
  "cpu_pc (cpu (add_cycles k n)) = cpu_pc (cpu n)"
  "cpu_sp (cpu (add_cycles k n)) = cpu_sp (cpu n)"
  "cpu_p (cpu (add_cycles k n)) = cpu_p (cpu n)"
  "ram (add_cycles k n) = ram n"
  by (simp_all add: add_cycles_def)

lemma operand16_frame:
  "cpu (snd (operand16 nes)) = (cpu nes)\<lparr>cpu_pc := cpu_pc (cpu nes) + 3\<rparr>"
  "ram (snd (operand16 nes)) = ram nes"
  "cart (snd (operand16 nes)) = cart nes"
  by (simp_all add: operand16_def Let_def split_beta fetch_frame)

subsection \<open>Dispatch\<close>

lemma exec_cases:
  "exec 0x6C n = exec_jmp addr_indirect 5 n"
  "exec 0x20 n = exec_jsr n"
  "exec 0x60 n = exec_rts n"
  "exec 0x40 n = exec_rti n"
  "exec 0x28 n = exec_plp n"
  by (simp_all add: exec_def)

lemma cpu_step_opcode: "fst (fetch nes) = opc \<Longrightarrow> cpu_step nes = exec opc (snd (fetch nes))"
  by (simp add: cpu_step_def split_beta)

subsection \<open>Splitting and joining 16-bit words\<close>

lemma split_word16:
  "ucast (ucast w :: u8) OR push_bit 8 (ucast (ucast (drop_bit 8 w) :: u8)) = w" for w :: u16
  by (rule bit_eqI) (auto simp add: bit_simps)

lemma low_byte_of: "(ucast (ucast (lo::u8) OR push_bit 8 (ucast (hi::u8)) :: u16) :: u8) = lo"
  by (rule bit_eqI) (auto simp add: bit_simps)

lemma high_byte_of: "(ucast (drop_bit 8 (ucast (lo::u8) OR push_bit 8 (ucast (hi::u8)) :: u16)) :: u8) = hi"
  by (rule bit_eqI) (auto simp add: bit_simps dest: bit_imp_le_length)

lemma bit_FF00: "bit (0xFF00 :: u16) i = (8 \<le> i \<and> i < 16)"
proof (cases "i < 16")
  case True
  from bit_index_cases [OF this] show ?thesis
    by (elim insertE emptyE) simp_all
next
  case False
  then show ?thesis by (auto dest: bit_imp_le_length)
qed

lemma bit_00FF: "bit (0xFF :: u16) i = (i < 8)"
proof (cases "i < 16")
  case True
  from bit_index_cases [OF this] show ?thesis
    by (elim insertE emptyE) simp_all
next
  case False
  then show ?thesis by (auto dest: bit_imp_le_length)
qed

lemma u16_unat_lt: "unat (w :: u16) < 65536"
  using unsigned_less [of w] by simp

lemma and_FF: "unat (w AND 0xFF) = unat w mod 256" for w :: u16
proof -
  have "w AND 0xFF = take_bit 8 w"
    by (rule bit_eqI) (auto simp add: bit_and_iff bit_take_bit_iff bit_00FF simp del: bit_numeral_word_iff)
  then have "unat (w AND 0xFF) = take_bit 8 (unat w)"
    by (simp only: unsigned_take_bit_eq)
  then show ?thesis by (simp only: take_bit_eq_mod) simp
qed

lemma and_FF00: "unat (w AND 0xFF00) = 256 * (unat w div 256)" for w :: u16
proof -
  have "w AND 0xFF00 = push_bit 8 (drop_bit 8 w)"
    by (rule bit_eqI) (auto simp add: bit_and_iff bit_push_bit_iff bit_drop_bit_eq bit_FF00 simp del: bit_numeral_word_iff)
  then have "unat (w AND 0xFF00) = take_bit 16 (push_bit 8 (drop_bit 8 (take_bit 16 (unat w))))"
    by (simp only: unsigned_push_bit_eq unsigned_drop_bit_eq) simp
  also have "\<dots> = (256 * (unat w mod 65536 div 256)) mod 65536"
    by (simp only: push_bit_eq_mult drop_bit_eq_div take_bit_eq_mod) simp
  also have "\<dots> = 256 * (unat w div 256)"
    using u16_unat_lt [of w] by simp
  finally show ?thesis .
qed

lemma or_add_bytes: "(a AND 0xFF00) OR (b AND 0xFF) = (a AND 0xFF00) + (b AND 0xFF)" for a b :: u16
proof -
  have "\<And>n. \<not> bit (a AND 0xFF00) n \<or> \<not> bit (b AND 0xFF) n"
    by (auto simp add: bit_and_iff bit_FF00 bit_00FF simp del: bit_numeral_word_iff)
  then show ?thesis by (rule disjunctive_add [symmetric])
qed

lemma low_byte_mask: "(ucast (w AND 0xFF) :: u8) = ucast w" for w :: u16
  by (rule bit_eqI) (auto simp add: bit_ucast_iff bit_and_iff bit_00FF simp del: bit_numeral_word_iff)

lemma wrap_arith:
  fixes n :: nat
  assumes "n < 65536"
  shows "256 * (n div 256) + (n + 1) mod 256 < 65536"
    and "(256 * (n div 256) + (n + 1) mod 256 \<noteq> (n + 1) mod 65536) = (n mod 256 = 255)"
proof -
  define q r where "q = n div 256" and "r = n mod 256"
  have n: "n = 256 * q + r" and r: "r < 256" by (simp_all add: q_def r_def)
  have q: "q < 256" using assms by (simp add: q_def less_mult_imp_div_less)
  have "(n + 1) mod 256 = (r + 1) mod 256" unfolding n by (simp add: mod_simps)
  then have l: "256 * (n div 256) + (n + 1) mod 256 = 256 * q + (r + 1) mod 256"
    by (simp only: q_def)
  show "256 * (n div 256) + (n + 1) mod 256 < 65536"
    unfolding l using q r by simp
  have "(256 * q + (r + 1) mod 256 \<noteq> (n + 1) mod 65536) = (r = 255)"
  proof (cases "r = 255")
    case True
    then have a: "256 * q + (r + 1) mod 256 = 256 * q" by simp
    have b: "(n + 1) mod 65536 \<noteq> 256 * q"
    proof (cases "q = 255")
      case True
      with \<open>r = 255\<close> show ?thesis by (simp add: n)
    next
      case False
      with q have "n + 1 < 65536" using \<open>r = 255\<close> by (simp add: n)
      then show ?thesis using \<open>r = 255\<close> by (simp add: n)
    qed
    from b True show ?thesis unfolding a by simp
  next
    case False
    with r have r1: "(r + 1) mod 256 = r + 1" by simp
    have "n + 1 < 65536" using q r False by (simp add: n)
    then have "(n + 1) mod 65536 = 256 * q + (r + 1)" by (simp add: n)
    with False show ?thesis unfolding r1 by simp
  qed
  then show "(256 * (n div 256) + (n + 1) mod 256 \<noteq> (n + 1) mod 65536) = (n mod 256 = 255)"
    by (simp only: l r_def)
qed

lemma page_wrap_unat:
  "unat ((ptr AND 0xFF00) OR ((ptr + 1) AND 0xFF)) = 256 * (unat ptr div 256) + (unat ptr + 1) mod 256"
  for ptr :: u16
proof -
  have "unat (ptr + 1) mod 256 = (unat ptr + 1) mod 256"
    by (simp add: unat_word_ariths mod_mod_cancel)
  then have "unat ((ptr AND 0xFF00) + ((ptr + 1) AND 0xFF))
      = (256 * (unat ptr div 256) + (unat ptr + 1) mod 256) mod 65536"
    by (simp add: unat_word_ariths(1) and_FF and_FF00)
  also have "\<dots> = 256 * (unat ptr div 256) + (unat ptr + 1) mod 256"
    using wrap_arith(1) [OF u16_unat_lt [of ptr]] by simp
  finally show ?thesis by (simp only: or_add_bytes)
qed

lemma page_wrap_addr:
  "(((ptr AND 0xFF00) OR ((ptr + 1) AND 0xFF)) \<noteq> ptr + 1) = (ptr AND 0xFF = 0xFF)" for ptr :: u16
proof -
  have l: "(ptr AND 0xFF = 0xFF) = (unat ptr mod 256 = 255)"
    by (simp add: word_unat_eq_iff and_FF)
  have "unat (ptr + 1) = (unat ptr + 1) mod 65536" by (simp add: unat_word_ariths)
  then have r: "(((ptr AND 0xFF00) OR ((ptr + 1) AND 0xFF)) \<noteq> ptr + 1)
         = (256 * (unat ptr div 256) + (unat ptr + 1) mod 256 \<noteq> (unat ptr + 1) mod 65536)"
    by (simp only: word_unat_eq_iff page_wrap_unat)
  show ?thesis unfolding l r by (rule wrap_arith(2) [OF u16_unat_lt])
qed

lemma page_wrap_target:
  "ptr AND 0xFF = 0xFF \<Longrightarrow> (ptr AND 0xFF00) OR ((ptr + 1) AND 0xFF) = ptr AND 0xFF00" for ptr :: u16
proof -
  assume "ptr AND 0xFF = 0xFF"
  then have "unat ptr mod 256 = 255" by (simp add: word_unat_eq_iff and_FF)
  then have "(unat ptr + 1) mod 256 = 0" by (simp add: mod_Suc)
  then show ?thesis by (simp add: word_unat_eq_iff page_wrap_unat and_FF00)
qed

subsection \<open>Indirect JMP\<close>

lemma addr_absolute_operand16:
  "addr_absolute (snd (fetch nes)) =
     (\<lparr>ar_addr = fst (operand16 nes), ar_value = 0, page_crossed = False\<rparr>, snd (operand16 nes))"
  by (simp add: addr_absolute_def operand16_def Let_def split_beta)

lemma addr_indirect_operand16:
  assumes "operand16 nes = (ptr, n3)"
    and "cpu_read n3 ptr = (tlo, n4)"
    and "cpu_read n4 ((ptr AND 0xFF00) OR ((ptr + 1) AND 0xFF)) = (thi, n5)"
  shows "addr_indirect (snd (fetch nes)) =
     (\<lparr>ar_addr = ucast tlo OR push_bit 8 (ucast thi), ar_value = 0, page_crossed = False\<rparr>, n5)"
proof -
  have p: "push_bit 8 (ucast (fst (fetch (snd (fetch (snd (fetch nes))))))) OR
           ucast (fst (fetch (snd (fetch nes)))) = ptr"
    and n: "snd (fetch (snd (fetch (snd (fetch nes))))) = n3"
    using assms(1) by (simp_all add: operand16_def Let_def split_beta)
  show ?thesis
    unfolding addr_indirect_def Let_def split_beta p n
    by (simp add: assms(2,3))
qed

text \<open>
  Claim C6.  Let the instruction at the program counter be the indirect JMP (opcode
  0x6C) with operand \<open>ptr\<close>, let \<open>tlo\<close> be the byte the bus returns at \<open>ptr\<close> and \<open>thi\<close>
  the byte it then returns at \<open>(ptr & 0xFF00) | ((ptr + 1) & 0xFF)\<close>.  After the step
  the low byte of \<open>PC\<close> is \<open>tlo\<close> and the high byte is \<open>thi\<close>.  The address of the high
  byte differs from \<open>ptr + 1\<close> exactly when the low byte of \<open>ptr\<close> is 0xFF, and it is
  then \<open>ptr & 0xFF00\<close>.  The reads are those of \<open>cpu_read\<close>, in the order of the source,
  each on the machine the previous read left.
\<close>

theorem jmp_indirect_page_wrap:
  assumes "prg_rom_size (cart nes) \<noteq> 0"
    and "fst (fetch nes) = 0x6C"
    and "operand16 nes = (ptr, n3)"
    and "cpu_read n3 ptr = (tlo, n4)"
    and "cpu_read n4 ((ptr AND 0xFF00) OR ((ptr + 1) AND 0xFF)) = (thi, n5)"
  shows "ucast (cpu_pc (cpu (cpu_step nes))) = tlo
       \<and> ucast (drop_bit 8 (cpu_pc (cpu (cpu_step nes)))) = thi
       \<and> (((ptr AND 0xFF00) OR ((ptr + 1) AND 0xFF)) \<noteq> ptr + 1) = (ptr AND 0xFF = 0xFF)
       \<and> (ptr AND 0xFF = 0xFF \<longrightarrow> (ptr AND 0xFF00) OR ((ptr + 1) AND 0xFF) = (ptr AND 0xFF00))"
proof -
  have s: "cpu_step nes = exec_jmp addr_indirect 5 (snd (fetch nes))"
    using cpu_step_opcode [OF assms(2)] by (simp add: exec_cases)
  have pc: "cpu_pc (cpu (cpu_step nes)) = ucast tlo OR push_bit 8 (ucast thi)"
    unfolding s exec_jmp_def addr_indirect_operand16 [OF assms(3-5)]
    by (simp add: add_cycles_fields)
  show ?thesis
    unfolding pc using page_wrap_target [of ptr]
    by (simp only: low_byte_of high_byte_of page_wrap_addr simp_thms) blast
qed

text \<open>
  The scenario of the specification: operand 0x10FF, 0x34 at 0x10FF, 0x12 at 0x1000 and
  0x56 at 0x1100 give the new \<open>PC\<close> 0x1234.
\<close>

lemma jmp_example_fetch:
  "fetch jmp_example = (0x6C, jmp_example\<lparr>cpu := (cpu jmp_example)\<lparr>cpu_pc := 0x201\<rparr>\<rparr>)"
  by (simp add: fetch_def jmp_example_def machine_with_def cpu_reset_def cpu_read_def Let_def)

lemma jmp_example_operand:
  "operand16 jmp_example = (0x10FF, jmp_example\<lparr>cpu := (cpu jmp_example)\<lparr>cpu_pc := 0x203\<rparr>\<rparr>)"
  by (simp add: operand16_def jmp_example_fetch)
     (simp add: fetch_def jmp_example_def machine_with_def cpu_reset_def cpu_read_def Let_def)

lemma jmp_example_reads:
  "cpu_read (jmp_example\<lparr>cpu := c\<rparr>) 0x10FF = (0x34, jmp_example\<lparr>cpu := c\<rparr>)"
  "cpu_read (jmp_example\<lparr>cpu := c\<rparr>) 0x1000 = (0x12, jmp_example\<lparr>cpu := c\<rparr>)"
  "cpu_read (jmp_example\<lparr>cpu := c\<rparr>) 0x1100 = (0x56, jmp_example\<lparr>cpu := c\<rparr>)"
  by (simp_all add: jmp_example_def machine_with_def cpu_read_def)

theorem jmp_indirect_page_wrap_witness:
  "prg_rom_size (cart jmp_example) \<noteq> 0
   \<and> fst (fetch jmp_example) = 0x6C
   \<and> fst (operand16 jmp_example) = 0x10FF
   \<and> fst (cpu_read jmp_example 0x10FF) = 0x34
   \<and> fst (cpu_read jmp_example 0x1000) = 0x12
   \<and> fst (cpu_read jmp_example 0x1100) = 0x56
   \<and> cpu_pc (cpu (cpu_step jmp_example)) = 0x1234"
proof -
  let ?n3 = "jmp_example\<lparr>cpu := (cpu jmp_example)\<lparr>cpu_pc := 0x203\<rparr>\<rparr>"
  have h1: "prg_rom_size (cart jmp_example) \<noteq> 0"
    by (simp add: jmp_example_def machine_with_def blank_cart_def PRG_ROM_BANK_SIZE_def)
  have h2: "fst (fetch jmp_example) = 0x6C" by (simp add: jmp_example_fetch)
  have h4: "cpu_read ?n3 0x10FF = (0x34, ?n3)" by (rule jmp_example_reads)
  have h5: "cpu_read ?n3 ((0x10FF AND 0xFF00) OR ((0x10FF + 1) AND 0xFF)) = (0x12, ?n3)"
    by (simp add: jmp_example_reads)
  from jmp_indirect_page_wrap [OF h1 h2 jmp_example_operand h4 h5]
  have lo: "(ucast (cpu_pc (cpu (cpu_step jmp_example))) :: u8) = 0x34"
    and hi: "(ucast (drop_bit 8 (cpu_pc (cpu (cpu_step jmp_example)))) :: u8) = 0x12"
    by simp_all
  have "cpu_pc (cpu (cpu_step jmp_example)) = ucast (0x34 :: u8) OR push_bit 8 (ucast (0x12 :: u8))"
    using split_word16 [of "cpu_pc (cpu (cpu_step jmp_example))"] by (simp only: lo hi)
  then have pc: "cpu_pc (cpu (cpu_step jmp_example)) = 0x1234" by simp
  have r: "fst (cpu_read jmp_example 0x10FF) = 0x34" "fst (cpu_read jmp_example 0x1000) = 0x12"
          "fst (cpu_read jmp_example 0x1100) = 0x56"
    by (simp_all add: jmp_example_def machine_with_def cpu_read_def)
  show ?thesis using h1 h2 pc r by (simp add: jmp_example_operand)
qed

subsection \<open>JSR and RTS\<close>

lemma sp_slots_distinct: "0x100 + unat (sp - 1) \<noteq> 0x100 + unat sp" for sp :: u8
  by (simp add: word_unat_eq_iff [symmetric])

lemma exec_jsr_result:
  assumes "operand16 nes = (target, n3)"
  shows "exec_jsr (snd (fetch nes)) =
     add_cycles 6
       (n3\<lparr>ram := (ram nes)
               (0x100 + unat (cpu_sp (cpu nes)) := ucast (drop_bit 8 (cpu_pc (cpu nes) + 3 - 1)),
                0x100 + unat (cpu_sp (cpu nes) - 1) := ucast (cpu_pc (cpu nes) + 3 - 1)),
           cpu := (cpu nes)\<lparr>cpu_sp := cpu_sp (cpu nes) - 2, cpu_pc := target\<rparr>\<rparr>)"
proof -
  have t: "fst (operand16 nes) = target" and n: "snd (operand16 nes) = n3"
    using assms by simp_all
  have c: "cpu n3 = (cpu nes)\<lparr>cpu_pc := cpu_pc (cpu nes) + 3\<rparr>" and r: "ram n3 = ram nes"
    using operand16_frame [of nes] by (simp_all add: n)
  show ?thesis
    unfolding exec_jsr_def addr_absolute_operand16 t n
    by (simp add: Let_def cpu_push_def c r low_byte_mask)
qed

lemma exec_rts_result:
  "cpu_pc (cpu (exec_rts n)) =
     (ucast (ram n (0x100 + unat (cpu_sp (cpu n) + 1)))
        OR push_bit 8 (ucast (ram n (0x100 + unat (cpu_sp (cpu n) + 1 + 1))))) + 1"
  "cpu_sp (cpu (exec_rts n)) = cpu_sp (cpu n) + 1 + 1"
  by (simp_all add: exec_rts_def cpu_pop_def Let_def add_cycles_fields)

text \<open>
  Claim C7.  Let the instruction at the program counter be JSR (opcode 0x20) with operand
  \<open>target\<close>; the program counter after the operand is \<open>PC + 3\<close>.  The step stores the high
  byte of \<open>PC + 3 - 1\<close> at stack address \<open>0x100 + SP\<close>, then the low byte at
  \<open>0x100 + (SP - 1)\<close>, leaves \<open>SP - 2\<close> in the stack pointer and \<open>target\<close> in the program
  counter.  In every later machine \<open>m\<close> whose stack pointer and whose two stack cells are
  as the JSR left them and whose next instruction is RTS (opcode 0x60), the step sets the
  program counter to \<open>PC + 3\<close> and the stack pointer to its value before the JSR.
\<close>

theorem jsr_rts_round_trip:
  assumes "prg_rom_size (cart nes) \<noteq> 0"
    and "fst (fetch nes) = 0x20"
    and "operand16 nes = (target, n3)"
  shows "cpu_pc (cpu n3) = cpu_pc (cpu nes) + 3
       \<and> cpu_pc (cpu (cpu_step nes)) = target
       \<and> cpu_sp (cpu (cpu_step nes)) = cpu_sp (cpu nes) - 2
       \<and> ram (cpu_step nes) (0x100 + unat (cpu_sp (cpu nes)))
            = ucast (drop_bit 8 (cpu_pc (cpu nes) + 3 - 1))
       \<and> ram (cpu_step nes) (0x100 + unat (cpu_sp (cpu nes) - 1))
            = ucast (cpu_pc (cpu nes) + 3 - 1)
       \<and> (\<forall>m. prg_rom_size (cart m) \<noteq> 0
              \<and> fst (fetch m) = 0x60
              \<and> cpu_sp (cpu m) = cpu_sp (cpu (cpu_step nes))
              \<and> ram m (0x100 + unat (cpu_sp (cpu nes)))
                   = ram (cpu_step nes) (0x100 + unat (cpu_sp (cpu nes)))
              \<and> ram m (0x100 + unat (cpu_sp (cpu nes) - 1))
                   = ram (cpu_step nes) (0x100 + unat (cpu_sp (cpu nes) - 1))
            \<longrightarrow> cpu_pc (cpu (cpu_step m)) = cpu_pc (cpu nes) + 3
              \<and> cpu_sp (cpu (cpu_step m)) = cpu_sp (cpu nes))"
proof -
  let ?sp = "cpu_sp (cpu nes)"
  let ?ret = "cpu_pc (cpu nes) + 3"
  have s: "cpu_step nes = exec_jsr (snd (fetch nes))"
    using cpu_step_opcode [OF assms(2)] by (simp add: exec_cases)
  have pc3: "cpu_pc (cpu n3) = ?ret"
    using operand16_frame(1) [of nes] by (simp add: assms(3))
  have pc: "cpu_pc (cpu (cpu_step nes)) = target"
    and sp: "cpu_sp (cpu (cpu_step nes)) = ?sp - 2"
    and hi: "ram (cpu_step nes) (0x100 + unat ?sp) = ucast (drop_bit 8 (?ret - 1))"
    and lo: "ram (cpu_step nes) (0x100 + unat (?sp - 1)) = ucast (?ret - 1)"
    unfolding s exec_jsr_result [OF assms(3)]
    using sp_slots_distinct [of ?sp]
    by (simp_all add: add_cycles_def)
  have rts: "cpu_pc (cpu (cpu_step m)) = ?ret \<and> cpu_sp (cpu (cpu_step m)) = ?sp"
    if m: "fst (fetch m) = 0x60" "cpu_sp (cpu m) = cpu_sp (cpu (cpu_step nes))"
      "ram m (0x100 + unat ?sp) = ram (cpu_step nes) (0x100 + unat ?sp)"
      "ram m (0x100 + unat (?sp - 1)) = ram (cpu_step nes) (0x100 + unat (?sp - 1))"
    for m
  proof -
    have sm: "cpu_step m = exec_rts (snd (fetch m))"
      using cpu_step_opcode [OF m(1)] by (simp add: exec_cases)
    have spm: "cpu_sp (cpu (snd (fetch m))) = ?sp - 2"
      by (simp add: fetch_frame m(2) sp)
    have rm: "ram (snd (fetch m)) = ram m" by (rule fetch_frame)
    have a1: "?sp - 2 + 1 = ?sp - 1" and a2: "?sp - 1 + 1 = ?sp" by simp_all
    have "cpu_pc (cpu (cpu_step m)) =
        (ucast (ucast (?ret - 1) :: u8) OR push_bit 8 (ucast (ucast (drop_bit 8 (?ret - 1)) :: u8))) + 1"
      unfolding sm exec_rts_result spm rm a1 a2
      by (simp only: m(3,4) hi lo)
    then have "cpu_pc (cpu (cpu_step m)) = ?ret"
      by (simp only: split_word16) simp
    moreover have "cpu_sp (cpu (cpu_step m)) = ?sp"
      unfolding sm exec_rts_result spm a1 a2 ..
    ultimately show ?thesis ..
  qed
  from pc3 pc sp hi lo rts show ?thesis by blast
qed

text \<open>\<open>JSR $0300\<close> at 0x0200 with \<open>SP = 0xFD\<close>, then the \<open>RTS\<close> at 0x0300.\<close>

lemma jsr_example_step:
  "cpu_step jsr_example =
     jsr_example\<lparr>ram := (ram jsr_example)(0x1FD := 0x02, 0x1FC := 0x02),
                 cpu := (cpu jsr_example)\<lparr>cpu_sp := 0xFB, cpu_pc := 0x0300, cpu_cycles := 13\<rparr>\<rparr>"
  by (simp add: cpu_step_def fetch_def exec_cases exec_jsr_def addr_absolute_def cpu_push_def
      add_cycles_def cpu_read_def jsr_example_def machine_with_def cpu_reset_def Let_def)

theorem jsr_rts_round_trip_witness:
  "prg_rom_size (cart jsr_example) \<noteq> 0
   \<and> fst (fetch jsr_example) = 0x20
   \<and> fst (operand16 jsr_example) = 0x0300
   \<and> cpu_pc (cpu jsr_example) = 0x0200
   \<and> cpu_sp (cpu jsr_example) = 0xFD
   \<and> cpu_pc (cpu (cpu_step jsr_example)) = 0x0300
   \<and> cpu_sp (cpu (cpu_step jsr_example)) = 0xFB
   \<and> ram (cpu_step jsr_example) 0x1FD = 0x02
   \<and> ram (cpu_step jsr_example) 0x1FC = 0x02
   \<and> fst (fetch (cpu_step jsr_example)) = 0x60
   \<and> cpu_pc (cpu (cpu_step (cpu_step jsr_example))) = 0x0203
   \<and> cpu_sp (cpu (cpu_step (cpu_step jsr_example))) = 0xFD"
proof -
  let ?m = "cpu_step jsr_example"
  have h1: "prg_rom_size (cart jsr_example) \<noteq> 0"
    by (simp add: jsr_example_def machine_with_def blank_cart_def PRG_ROM_BANK_SIZE_def)
  have h2: "fst (fetch jsr_example) = 0x20"
    by (simp add: fetch_def jsr_example_def machine_with_def cpu_reset_def cpu_read_def Let_def)
  have h3: "operand16 jsr_example = (0x0300, snd (operand16 jsr_example))"
    by (simp add: operand16_def fetch_def jsr_example_def machine_with_def cpu_reset_def
        cpu_read_def Let_def)
  have pc0: "cpu_pc (cpu jsr_example) = 0x0200" and sp0: "cpu_sp (cpu jsr_example) = 0xFD"
    by (simp_all add: jsr_example_def machine_with_def cpu_reset_def)
  have m1: "prg_rom_size (cart ?m) \<noteq> 0"
    unfolding jsr_example_step using h1 by simp
  have m2: "fst (fetch ?m) = 0x60"
    unfolding jsr_example_step
    by (simp add: fetch_def jsr_example_def machine_with_def cpu_reset_def cpu_read_def Let_def)
  note t = jsr_rts_round_trip [OF h1 h2 h3]
  from t have a: "cpu_pc (cpu ?m) = 0x0300" "cpu_sp (cpu ?m) = 0xFB"
    "ram ?m 0x1FD = 0x02" "ram ?m 0x1FC = 0x02"
    by (simp_all add: pc0 sp0)
  from t have "prg_rom_size (cart ?m) \<noteq> 0 \<and> fst (fetch ?m) = 0x60
      \<and> cpu_sp (cpu ?m) = cpu_sp (cpu ?m)
      \<and> ram ?m (0x100 + unat (cpu_sp (cpu jsr_example))) = ram ?m (0x100 + unat (cpu_sp (cpu jsr_example)))
      \<and> ram ?m (0x100 + unat (cpu_sp (cpu jsr_example) - 1)) = ram ?m (0x100 + unat (cpu_sp (cpu jsr_example) - 1))
      \<longrightarrow> cpu_pc (cpu (cpu_step ?m)) = cpu_pc (cpu jsr_example) + 3
        \<and> cpu_sp (cpu (cpu_step ?m)) = cpu_sp (cpu jsr_example)"
    by blast
  with m1 m2 have b: "cpu_pc (cpu (cpu_step ?m)) = 0x0203" "cpu_sp (cpu (cpu_step ?m)) = 0xFD"
    by (simp_all add: pc0 sp0)
  have h3': "fst (operand16 jsr_example) = 0x0300"
    by (subst h3) simp
  from h1 h2 h3' pc0 sp0 a m2 b show ?thesis by simp
qed

subsection \<open>The unused status bit\<close>

text \<open>
  PLP (case 0x28) stores the popped byte with bit 5 set; RTI (case 0x40) stores the popped
  byte as it is.
\<close>

lemma plp_forces_unused:
  "fst (fetch nes) = 0x28 \<Longrightarrow>
   cpu_p (cpu (cpu_step nes)) = ram nes (0x100 + unat (cpu_sp (cpu nes) + 1)) OR FLAG_UNUSED"
  by (simp add: cpu_step_opcode exec_cases exec_plp_def cpu_pop_def Let_def split_beta
      add_cycles_fields fetch_frame)

lemma rti_loads_status_unchanged:
  "fst (fetch nes) = 0x40 \<Longrightarrow>
   cpu_p (cpu (cpu_step nes)) = ram nes (0x100 + unat (cpu_sp (cpu nes) + 1))"
  by (simp add: cpu_step_opcode exec_cases exec_rti_def cpu_pop_def Let_def split_beta
      add_cycles_fields fetch_frame)

text \<open>
  After every case of the switch other than RTI, and after the default case, bit 5 of the
  status register is set if it was set before the instruction.
\<close>

lemma keeps_statusD: "keeps_status mode \<Longrightarrow> cpu_p (cpu (snd (mode n))) = cpu_p (cpu n)"
  by (simp add: keeps_status_def)

lemma ppu_write_cpu: "cpu (ppu_write n a v) = cpu n"
  by (simp add: ppu_write_def Let_def)

lemma ppu_write_register_cpu: "cpu (ppu_write_register n a v) = cpu n"
  by (simp add: ppu_write_register_def Let_def ppu_write_cpu)

lemma cpu_write_cpu: "cpu (cpu_write n a v) = cpu n"
  by (simp add: cpu_write_def ppu_write_register_cpu)

lemma cpu_push_p: "cpu_p (cpu (cpu_push n v)) = cpu_p (cpu n)"
  by (simp add: cpu_push_def)

lemma cpu_pop_p: "cpu_p (cpu (snd (cpu_pop n))) = cpu_p (cpu n)"
  by (simp add: cpu_pop_def Let_def)

lemma modes_keep_status:
  "keeps_status addr_immediate" "keeps_status addr_zero_page" "keeps_status addr_zero_page_x"
  "keeps_status addr_zero_page_y" "keeps_status addr_absolute" "keeps_status addr_absolute_x"
  "keeps_status addr_absolute_y" "keeps_status addr_indirect"
  "keeps_status addr_indexed_indirect" "keeps_status addr_indirect_indexed"
  by (simp_all add: keeps_status_def addr_immediate_def addr_zero_page_def addr_zero_page_x_def
      addr_zero_page_y_def addr_absolute_def addr_absolute_x_def addr_absolute_y_def
      addr_indirect_def addr_indexed_indirect_def addr_indirect_indexed_def
      Let_def split_beta fetch_frame cpu_read_frame)

lemma set_zn_bit5: "bit (cpu_p (cpu_set_zn c v)) 5 = bit (cpu_p c) 5"
  by (simp add: set_zn_p flag_defs bit_simps)

lemma cpu_adc_bit5: "bit (cpu_p (cpu_adc c m)) 5 = bit (cpu_p c) 5"
  unfolding cpu_adc_unfold set_zn_bit5 by (simp add: flag_defs bit_simps)

lemma cpu_sbc_bit5: "bit (cpu_p (cpu_sbc c m)) 5 = bit (cpu_p c) 5"
  by (simp add: cpu_sbc_def cpu_adc_bit5)

lemma cpu_compare_bit5: "bit (cpu_p (cpu_compare c r m)) 5 = bit (cpu_p c) 5"
  by (simp add: cpu_compare_def Let_def set_zn_bit5 flag_defs bit_simps)

lemma shift_ops_bit5:
  "bit (fst (asl_op p v)) 5 = bit p 5" "bit (fst (rol_op p v)) 5 = bit p 5"
  "bit (fst (lsr_op p v)) 5 = bit p 5" "bit (fst (ror_op p v)) 5 = bit p 5"
  "bit (fst (dec_op p v)) 5 = bit p 5" "bit (fst (inc_op p v)) 5 = bit p 5"
  by (simp_all add: asl_op_def rol_op_def lsr_op_def ror_op_def dec_op_def inc_op_def
      Let_def flag_defs bit_simps)

lemma add_cycles_p: "cpu_p (cpu (add_cycles k n)) = cpu_p (cpu n)"
  by (simp add: add_cycles_def)

lemma cpu_branch_p: "cpu_p (cpu (cpu_branch n b)) = cpu_p (cpu n)"
  by (simp add: cpu_branch_def Let_def split_beta fetch_frame add_cycles_def)

lemma exec_read_ops_bit5:
  assumes "keeps_status mode"
  shows "bit (cpu_p (cpu (exec_logic f mode k pen n))) 5 = bit (cpu_p (cpu n)) 5"
    and "bit (cpu_p (cpu (exec_adc mode k pen n))) 5 = bit (cpu_p (cpu n)) 5"
    and "bit (cpu_p (cpu (exec_sbc mode k pen n))) 5 = bit (cpu_p (cpu n)) 5"
    and "bit (cpu_p (cpu (exec_compare reg mode k pen n))) 5 = bit (cpu_p (cpu n)) 5"
    and "bit (cpu_p (cpu (exec_lda mode k pen n))) 5 = bit (cpu_p (cpu n)) 5"
    and "bit (cpu_p (cpu (exec_ldx mode k pen n))) 5 = bit (cpu_p (cpu n)) 5"
    and "bit (cpu_p (cpu (exec_ldy mode k pen n))) 5 = bit (cpu_p (cpu n)) 5"
    and "bit (cpu_p (cpu (exec_store reg mode k n))) 5 = bit (cpu_p (cpu n)) 5"
    and "bit (cpu_p (cpu (exec_bit mode k n))) 5 = bit (cpu_p (cpu n)) 5"
    and "bit (cpu_p (cpu (exec_jmp mode k n))) 5 = bit (cpu_p (cpu n)) 5"
  using keeps_statusD [OF assms]
  by (simp_all add: exec_logic_def exec_adc_def exec_sbc_def exec_compare_def exec_lda_def
      exec_ldx_def exec_ldy_def exec_store_def exec_bit_def exec_jmp_def Let_def split_beta
      add_cycles_p set_zn_bit5 cpu_adc_bit5 cpu_sbc_bit5 cpu_compare_bit5 cpu_read_frame
      cpu_write_cpu flag_defs bit_simps)

lemma exec_logic_ops_bit5:
  assumes "keeps_status mode"
  shows "bit (cpu_p (cpu (exec_ora mode k pen n))) 5 = bit (cpu_p (cpu n)) 5"
    and "bit (cpu_p (cpu (exec_and mode k pen n))) 5 = bit (cpu_p (cpu n)) 5"
    and "bit (cpu_p (cpu (exec_eor mode k pen n))) 5 = bit (cpu_p (cpu n)) 5"
  by (simp_all add: exec_ora_def exec_and_def exec_eor_def exec_read_ops_bit5 [OF assms])

lemma exec_rmw_bit5:
  assumes "keeps_status mode" and "\<And>p v. bit (fst (f p v)) 5 = bit p 5"
  shows "bit (cpu_p (cpu (exec_rmw f mode k n))) 5 = bit (cpu_p (cpu n)) 5"
  using keeps_statusD [OF assms(1)]
  by (simp add: exec_rmw_def Let_def split_beta add_cycles_p set_zn_bit5 cpu_write_cpu
      cpu_read_frame assms(2))

lemma exec_acc_bit5:
  assumes "\<And>p v. bit (fst (f p v)) 5 = bit p 5"
  shows "bit (cpu_p (cpu (exec_acc f k n))) 5 = bit (cpu_p (cpu n)) 5"
  by (simp add: exec_acc_def Let_def split_beta add_cycles_p set_zn_bit5 assms)

lemma exec_misc_bit5:
  "bit (cpu_p (cpu (exec_branch flag want n))) 5 = bit (cpu_p (cpu n)) 5"
  "\<not> bit flag 5 \<Longrightarrow> bit (cpu_p (cpu (exec_clear_flag flag k n))) 5 = bit (cpu_p (cpu n)) 5"
  "\<not> bit flag 5 \<Longrightarrow> bit (cpu_p (cpu (exec_set_flag flag k n))) 5 = bit (cpu_p (cpu n)) 5"
  "bit (cpu_p (cpu (exec_txs n))) 5 = bit (cpu_p (cpu n)) 5"
  "bit (cpu_p (cpu (exec_php n))) 5 = bit (cpu_p (cpu n)) 5"
  "bit (cpu_p (cpu (exec_pha n))) 5 = bit (cpu_p (cpu n)) 5"
  "bit (cpu_p (cpu (exec_pla n))) 5 = bit (cpu_p (cpu n)) 5"
  "bit (cpu_p (cpu (exec_plp n))) 5"
  "bit (cpu_p (cpu (exec_rts n))) 5 = bit (cpu_p (cpu n)) 5"
  "bit (cpu_p (cpu (exec_jsr n))) 5 = bit (cpu_p (cpu n)) 5"
  "bit (cpu_p (cpu (exec_brk n))) 5 = bit (cpu_p (cpu n)) 5"
  "bit (cpu_p (cpu (add_cycles k n))) 5 = bit (cpu_p (cpu n)) 5"
  by (simp_all add: exec_branch_def exec_clear_flag_def exec_set_flag_def exec_txs_def
      exec_php_def exec_pha_def exec_pla_def exec_plp_def exec_rts_def exec_jsr_def exec_brk_def
      Let_def split_beta add_cycles_p cpu_branch_p cpu_push_p cpu_pop_def cpu_push_def
      set_zn_bit5 cpu_read_frame keeps_statusD [OF modes_keep_status(5)] flag_defs bit_simps)

lemma exec_transfer_bit5:
  "bit (cpu_p (cpu (exec_transfer cpu_a_update src k n))) 5 = bit (cpu_p (cpu n)) 5"
  "bit (cpu_p (cpu (exec_transfer cpu_x_update src k n))) 5 = bit (cpu_p (cpu n)) 5"
  "bit (cpu_p (cpu (exec_transfer cpu_y_update src k n))) 5 = bit (cpu_p (cpu n)) 5"
  "bit (cpu_p (cpu (exec_incdec cpu_x_update reg d k n))) 5 = bit (cpu_p (cpu n)) 5"
  "bit (cpu_p (cpu (exec_incdec cpu_y_update reg d k n))) 5 = bit (cpu_p (cpu n)) 5"
  by (simp_all add: exec_transfer_def exec_incdec_def Let_def add_cycles_p set_zn_bit5)

lemma flags_not_bit5:
  "\<not> bit FLAG_CARRY 5" "\<not> bit FLAG_INTERRUPT 5" "\<not> bit FLAG_DECIMAL 5" "\<not> bit FLAG_OVERFLOW 5"
  by (simp_all add: flag_defs)

lemma exec_rmw_ops_bit5:
  assumes "keeps_status mode"
  shows "bit (cpu_p (cpu (exec_rmw asl_op mode k n))) 5 = bit (cpu_p (cpu n)) 5"
    and "bit (cpu_p (cpu (exec_rmw rol_op mode k n))) 5 = bit (cpu_p (cpu n)) 5"
    and "bit (cpu_p (cpu (exec_rmw lsr_op mode k n))) 5 = bit (cpu_p (cpu n)) 5"
    and "bit (cpu_p (cpu (exec_rmw ror_op mode k n))) 5 = bit (cpu_p (cpu n)) 5"
    and "bit (cpu_p (cpu (exec_rmw dec_op mode k n))) 5 = bit (cpu_p (cpu n)) 5"
    and "bit (cpu_p (cpu (exec_rmw inc_op mode k n))) 5 = bit (cpu_p (cpu n)) 5"
  by (simp_all add: exec_rmw_bit5 [OF assms] shift_ops_bit5)

lemma exec_acc_ops_bit5:
  "bit (cpu_p (cpu (exec_acc asl_op k n))) 5 = bit (cpu_p (cpu n)) 5"
  "bit (cpu_p (cpu (exec_acc rol_op k n))) 5 = bit (cpu_p (cpu n)) 5"
  "bit (cpu_p (cpu (exec_acc lsr_op k n))) 5 = bit (cpu_p (cpu n)) 5"
  "bit (cpu_p (cpu (exec_acc ror_op k n))) 5 = bit (cpu_p (cpu n)) 5"
  by (simp_all add: exec_acc_bit5 shift_ops_bit5)

lemma exec_flag_ops_bit5:
  "bit (cpu_p (cpu (exec_clear_flag FLAG_CARRY k n))) 5 = bit (cpu_p (cpu n)) 5"
  "bit (cpu_p (cpu (exec_clear_flag FLAG_INTERRUPT k n))) 5 = bit (cpu_p (cpu n)) 5"
  "bit (cpu_p (cpu (exec_clear_flag FLAG_DECIMAL k n))) 5 = bit (cpu_p (cpu n)) 5"
  "bit (cpu_p (cpu (exec_clear_flag FLAG_OVERFLOW k n))) 5 = bit (cpu_p (cpu n)) 5"
  "bit (cpu_p (cpu (exec_set_flag FLAG_CARRY k n))) 5 = bit (cpu_p (cpu n)) 5"
  "bit (cpu_p (cpu (exec_set_flag FLAG_INTERRUPT k n))) 5 = bit (cpu_p (cpu n)) 5"
  "bit (cpu_p (cpu (exec_set_flag FLAG_DECIMAL k n))) 5 = bit (cpu_p (cpu n)) 5"
  by (simp_all add: exec_misc_bit5 flags_not_bit5)

lemma exec_keeps_unused:
  assumes "opc \<noteq> 0x40" and "bit (cpu_p (cpu n)) 5"
  shows "bit (cpu_p (cpu (exec opc n))) 5"
proof (cases "opc \<in> documented_opcodes")
  case True
  with assms(1) show ?thesis
    unfolding documented_opcodes_def
    by (elim insertE emptyE)
       (simp_all add: exec_def assms(2) exec_read_ops_bit5 exec_logic_ops_bit5
          exec_rmw_ops_bit5 exec_acc_ops_bit5 exec_flag_ops_bit5 exec_misc_bit5(1,4-12)
          exec_transfer_bit5 modes_keep_status)
next
  case False
  then have "exec opc n = add_cycles 2 n"
    unfolding documented_opcodes_def by (simp add: exec_def)
  then show ?thesis using assms(2) by (simp add: add_cycles_p)
qed

lemma cpu_step_keeps_unused:
  assumes "fst (fetch nes) \<noteq> 0x40" and "bit (cpu_p (cpu nes)) 5"
  shows "bit (cpu_p (cpu (cpu_step nes))) 5"
proof -
  have "bit (cpu_p (cpu (snd (fetch nes)))) 5" using assms(2) by (simp add: fetch_frame)
  from exec_keeps_unused [OF assms(1) this] show ?thesis
    by (simp add: cpu_step_def split_beta)
qed

text \<open>
  Claim C1.  The claim fails at RTI.  In \<open>rti_example\<close> the status register has bit 5
  set, the instruction at the program counter is RTI and the byte on top of the stack is
  0.  After the step the status register is 0: bit 5 is clear.
\<close>

theorem rti_clears_unused_flag:
  "cpu_p (cpu rti_example) AND FLAG_UNUSED = FLAG_UNUSED
   \<and> fst (fetch rti_example) = 0x40
   \<and> ram rti_example (0x100 + unat (cpu_sp (cpu rti_example) + 1)) = 0
   \<and> cpu_p (cpu (cpu_step rti_example)) = 0
   \<and> cpu_p (cpu (cpu_step rti_example)) AND FLAG_UNUSED = 0"
proof -
  have f: "fst (fetch rti_example) = 0x40"
    by (simp add: fetch_def rti_example_def machine_with_def cpu_reset_def cpu_read_def Let_def)
  have r: "ram rti_example (0x100 + unat (cpu_sp (cpu rti_example) + 1)) = 0"
    by (simp add: rti_example_def machine_with_def cpu_reset_def)
  have p: "cpu_p (cpu rti_example) AND FLAG_UNUSED = FLAG_UNUSED"
    by (simp add: rti_example_def machine_with_def cpu_reset_def flag_defs)
  from rti_loads_status_unchanged [OF f] r have "cpu_p (cpu (cpu_step rti_example)) = 0" by simp
  with f r p show ?thesis by simp
qed

section \<open>Properties of the iNES loader\<close>

lemma header_length: "length (ines_header a b c d) = 16"
  by (simp add: ines_header_def)

lemma header_bytes:
  "take 4 (ines_header a b c d) = ines_magic"
  "take 4 (ines_header a b c d @ xs) = ines_magic"
  "(ines_header a b c d @ xs) ! 4 = a"
  "(ines_header a b c d @ xs) ! 5 = b"
  "(ines_header a b c d @ xs) ! 6 = c"
  "(ines_header a b c d @ xs) ! 7 = d"
  by (simp_all add: ines_header_def ines_magic_def)

text \<open>
  Where \<open>parse_ines\<close> returns \<open>true\<close> without overrunning an array, the sizes are those of
  the data model, and \<open>prg_rom_size\<close> is not zero.
\<close>

lemma loaded_sizes_in_range:
  assumes "parse_ines rom = Loaded c"
  shows "prg_rom_size c \<in> {16384, 32768} \<and> chr_rom_size c \<in> {0, 8192}"
proof -
  have bank: "n * 16384 \<le> 32768 \<Longrightarrow> n = 0 \<or> n = 1 \<or> n = 2" for n :: nat by arith
  have chr: "n * 8192 \<le> 8192 \<Longrightarrow> n = 0 \<or> n = 1" for n :: nat by arith
  from assms show ?thesis
    by (auto simp add: parse_ines_def Let_def PRG_ROM_BANK_SIZE_def CHR_ROM_BANK_SIZE_def
        not_less split: if_splits dest!: bank chr)
qed

text \<open>\<open>parse_ines\<close> does not depend on byte 7 of the image.\<close>

lemma nth_beyond_byte7: "7 < k \<Longrightarrow> rom[7 := b] ! k = rom ! k"
  by simp

lemma parse_ines_ignores_byte7: "parse_ines (rom[7 := b]) = parse_ines rom"
  by (simp add: parse_ines_def Let_def take_update_cancel nth_beyond_byte7 cong: if_cong)

text \<open>
  Claim C3.  The claim fails for a mapper number whose low nibble is 0.  \<open>parse_ines\<close>
  computes \<open>mapper\<close> from byte 6 alone and never reads byte 7.  The image
  \<open>mapper16_rom\<close> has one PRG bank, byte 6 equal to 0 and byte 7 equal to 0x10, so its
  mapper number is 16; \<open>parse_ines\<close> accepts it and loads a cartridge of 16384 PRG
  bytes.
\<close>

theorem mapper16_rom_is_loaded:
  "spec_mapper_number mapper16_rom = 0x10
   \<and> loaded_sizes (parse_ines mapper16_rom) = Some (16384, 0)"
  by (simp add: spec_mapper_number_def mapper16_rom_def parse_ines_def header_bytes header_length
      Let_def loaded_sizes_def PRG_ROM_BANK_SIZE_def CHR_ROM_BANK_SIZE_def)

text \<open>
  Claim C4.  The claim fails for a header with more than two PRG banks or more than one
  CHR bank.  \<open>parse_ines\<close> has no check on the bank counts: an image with three PRG
  banks, and one with two CHR banks, that are long enough pass every test and reach the
  \<open>memcpy\<close>, which copies 49152 bytes into the 32768 bytes of \<open>prg_rom\<close>, or 16384
  bytes into the 8192 bytes of \<open>chr_rom\<close>.  Neither image is rejected.
\<close>

theorem oversized_roms_are_not_rejected:
  "parse_ines three_prg_banks_rom = Overrun 49152 32768
   \<and> parse_ines two_chr_banks_rom = Overrun 16384 8192"
  by (simp add: three_prg_banks_rom_def two_chr_banks_rom_def parse_ines_def header_bytes
      header_length Let_def PRG_ROM_BANK_SIZE_def CHR_ROM_BANK_SIZE_def)

end
